theory Spec2Isabelle
  imports Complex_Main "HOL-Library.Monad_Syntax"
begin

section \<open>Numbers and tensors\<close>

text \<open>
  The notebook \<^verbatim>\<open>ImageAnalysis_lab4.ipynb\<close> computes in IEEE floating point (numpy
  float64, torch float32). The model computes over the reals: rounding is outside it. The
  two places where floating point leaves the reals are written out: \<open>np.sqrt\<close> of a
  negative number is \<open>nan\<close>, and a division by zero is \<open>inf\<close> or \<open>nan\<close>. Both are the
  value \<open>None\<close> here: a computation in which \<open>nan\<close> or \<open>inf\<close> has arisen, which the model
  does not follow further. A \<open>nan\<close> stays a \<open>nan\<close> through every later operation of the
  notebook.
\<close>

datatype error = AssertionError | ValueError | RuntimeError | AttributeError

definition np_sqrt :: "real \<Rightarrow> real option" where
  "np_sqrt x = (if x < 0 then None else Some (sqrt x))"

definition np_div :: "real \<Rightarrow> real \<Rightarrow> real option" where
  "np_div a b = (if b = 0 then None else Some (a / b))"

text \<open>
  A tensor is the list of its rows. A tensor of shape \<open>(N, 1)\<close>, as \<open>view(-1,1)\<close> makes
  it, is a list of \<open>N\<close> one-element rows (\<open>view_col\<close>); a one-dimensional tensor of \<open>n\<close>
  entries and a zero-dimensional one are stored as a single row. The elementwise
  operations of torch are \<open>tmap\<close> (tensor with a Python number) and \<open>broadcast\<close> (tensor
  with tensor: a one-element tensor is broadcast against the other operand). Where two
  operands have more than one element each, \<open>zip\<close> pairs them row by row and entry by
  entry; in the notebook such operands always have the same shape.
\<close>

type_synonym tensor = "real list list"

definition tmap :: "(real \<Rightarrow> real) \<Rightarrow> tensor \<Rightarrow> tensor" where
  "tmap f M = map (map f) M"

definition tmap2 :: "(real \<Rightarrow> real \<Rightarrow> real) \<Rightarrow> tensor \<Rightarrow> tensor \<Rightarrow> tensor" where
  "tmap2 f A B = map2 (map2 f) A B"

definition numel :: "tensor \<Rightarrow> nat" where
  "numel M = length (concat M)"

definition view_col :: "real list \<Rightarrow> tensor" where
  "view_col xs = map (\<lambda>x. [x]) xs"

definition linspace :: "real \<Rightarrow> real \<Rightarrow> nat \<Rightarrow> real list" where
  "linspace a b n = map (\<lambda>j. a + (b - a) * real j / real (n - 1)) [0..<n]"

definition ones_like :: "tensor \<Rightarrow> tensor" where
  "ones_like M = tmap (\<lambda>_. 1) M"

definition squeeze :: "tensor \<Rightarrow> tensor" where
  "squeeze M = (if list_all (\<lambda>row. length row = 1) M then [concat M] else M)"

definition mean :: "tensor \<Rightarrow> tensor" where
  "mean M = [[sum_list (concat M) / real (numel M)]]"

definition broadcast :: "(real \<Rightarrow> real \<Rightarrow> real) \<Rightarrow> tensor \<Rightarrow> tensor \<Rightarrow> tensor" where
  "broadcast f A B =
     (case concat A of
        [a] \<Rightarrow> tmap (f a) B
      | _ \<Rightarrow> (case concat B of [b] \<Rightarrow> tmap (\<lambda>x. f x b) A | _ \<Rightarrow> tmap2 f A B))"

definition item :: "tensor \<Rightarrow> error + real" where
  "item M = (case concat M of [x] \<Rightarrow> Inr x | _ \<Rightarrow> Inl ValueError)"

definition imap :: "(nat \<Rightarrow> nat \<Rightarrow> real \<Rightarrow> real) \<Rightarrow> tensor \<Rightarrow> tensor" where
  "imap f M = map (\<lambda>r. map (\<lambda>c. f r c (M ! r ! c)) [0..<length (M ! r)]) [0..<length M]"

section \<open>The analytical solution\<close>

text \<open>
  \<^verbatim>\<open>
  def exact_solution(d, w0, t):
      assert d < w0
      w = np.sqrt(w0**2-d**2)
      phi = np.arctan(-d/w)
      A = 1/(2*np.cos(phi))
      cos = torch.cos(phi+w*t)
      exp = torch.exp(-d*t)
      u = exp*2*A*cos
      return u
  \<close>
  The result is \<open>Inl AssertionError\<close> when the assertion fails, \<open>Inr None\<close> when
  \<open>nan\<close> or \<open>inf\<close> has arisen on the way (the tensor returned is then not the
  solution), and \<open>Inr (Some u)\<close> otherwise. The entries of \<open>u\<close> are the values of real
  arithmetic. The notebook's are those of float64 and float32 arithmetic, which differ
  from them by rounding; no theorem below bounds that difference, and none is about the
  size of an entry of \<open>u\<close>.
\<close>

definition exact_solution :: "real \<Rightarrow> real \<Rightarrow> tensor \<Rightarrow> error + tensor option" where
  "exact_solution d w0 t =
     (if \<not> d < w0 then Inl AssertionError
      else Inr (do {
        w \<leftarrow> np_sqrt (w0\<^sup>2 - d\<^sup>2);
        q \<leftarrow> np_div (- d) w;
        let phi = arctan q;
        A \<leftarrow> np_div 1 (2 * cos phi);
        let cos = tmap cos (tmap (\<lambda>x. phi + x) (tmap (\<lambda>x. w * x) t));
        let exp = tmap exp (tmap (\<lambda>x. - d * x) t);
        let u = tmap2 (*) (tmap (\<lambda>x. x * A) (tmap (\<lambda>x. x * 2) exp)) cos;
        Some u
      }))"

section \<open>Leaves and automatic differentiation\<close>

text \<open>
  The tensors that require gradients are the leaves of torch's computational graph: the
  weights and biases of the network (\<open>fcs\<close>, the blocks of \<open>fch\<close>, \<open>fce\<close>), the learnable
  \<open>mu\<close> of Task 2, and the two input tensors \<open>t_boundary\<close> and \<open>t_physics\<close>
  (\<open>requires_grad_(True)\<close>). A store gives every leaf its value. A tensor computed from
  leaves carries its graph; it is modelled as a node, the function from the store to its
  value.

  \<open>torch.autograd.grad(outputs, inputs, grad_outputs, create_graph=True)\<close> is the
  vector-Jacobian product: entry \<open>(r, c)\<close> of the result is the sum over all entries
  \<open>(i, j)\<close> of \<open>outputs\<close> of \<open>grad_outputs[i, j]\<close> times the partial derivative of
  \<open>outputs[i, j]\<close> with respect to \<open>inputs[r, c]\<close>. The partial derivative is the
  derivative of the reals (\<open>pderiv\<close>); \<open>poke\<close> moves one entry of one leaf. The result is
  again a node, so that it can be differentiated a second time.
\<close>

datatype leaf =
  FcsWeight | FcsBias | FchWeight nat | FchBias nat | FceWeight | FceBias
  | Mu | TBoundary | TPhysics

type_synonym store = "leaf \<Rightarrow> tensor"

type_synonym node = "store \<Rightarrow> tensor"

definition pderiv :: "(real \<Rightarrow> real) \<Rightarrow> real \<Rightarrow> real" where
  "pderiv f a = (THE D. (f has_real_derivative D) (at a))"

definition poke :: "store \<Rightarrow> leaf \<Rightarrow> nat \<Rightarrow> nat \<Rightarrow> real \<Rightarrow> store" where
  "poke \<sigma> l r c x = \<sigma>(l := (\<sigma> l)[r := (\<sigma> l ! r)[c := x]])"

definition autograd_grad :: "node \<Rightarrow> leaf \<Rightarrow> node \<Rightarrow> node" where
  "autograd_grad outputs inputs grad_outputs \<sigma> =
     map (\<lambda>r. map (\<lambda>c.
            sum_list (map (\<lambda>i. sum_list (map (\<lambda>j.
                grad_outputs \<sigma> ! i ! j
                  * pderiv (\<lambda>x. outputs (poke \<sigma> inputs r c x) ! i ! j) (\<sigma> inputs ! r ! c))
              [0..<length (outputs \<sigma> ! i)])) [0..<length (outputs \<sigma>)]))
          [0..<length (\<sigma> inputs ! r)]) [0..<length (\<sigma> inputs)]"

section \<open>The network\<close>

text \<open>
  \<^verbatim>\<open>
  class FCN(nn.Module):
      def __init__(self, N_INPUT, N_OUTPUT, N_HIDDEN, N_LAYERS):
          activation = nn.Tanh
          self.fcs = nn.Sequential(*[nn.Linear(N_INPUT, N_HIDDEN), activation()])
          self.fch = nn.Sequential(*[
                          nn.Sequential(*[nn.Linear(N_HIDDEN, N_HIDDEN), activation()])
                          for _ in range(N_LAYERS-1)])
          self.fce = nn.Linear(N_HIDDEN, N_OUTPUT)
      def forward(self, x):
          x = self.fcs(x)
          x = self.fch(x)
          x = self.fce(x)
          return x
  \<close>
  \<open>nn.Linear\<close> maps every row \<open>x\<close> of its input to \<open>x W\<^sup>T + b\<close>; its weight has one
  row per output feature. The module object is the number of blocks of \<open>fch\<close>; its
  weights are in the store. \<open>parameters\<close> lists the leaves in the order of
  \<open>pinn.parameters()\<close>.
\<close>

definition dot :: "real list \<Rightarrow> real list \<Rightarrow> real" where
  "dot x w = sum_list (map2 (*) x w)"

definition affine :: "tensor \<Rightarrow> real list \<Rightarrow> real list \<Rightarrow> real list" where
  "affine W b x = map2 (\<lambda>w bi. dot x w + bi) W b"

definition Linear :: "tensor \<Rightarrow> tensor \<Rightarrow> tensor \<Rightarrow> tensor" where
  "Linear weight bias X = map (affine weight (concat bias)) X"

definition Tanh :: "tensor \<Rightarrow> tensor" where
  "Tanh X = tmap tanh X"

definition fcs :: "store \<Rightarrow> tensor \<Rightarrow> tensor" where
  "fcs \<sigma> x = Tanh (Linear (\<sigma> FcsWeight) (\<sigma> FcsBias) x)"

definition fch_block :: "store \<Rightarrow> nat \<Rightarrow> tensor \<Rightarrow> tensor" where
  "fch_block \<sigma> i x = Tanh (Linear (\<sigma> (FchWeight i)) (\<sigma> (FchBias i)) x)"

definition fch :: "nat \<Rightarrow> store \<Rightarrow> tensor \<Rightarrow> tensor" where
  "fch n \<sigma> x = fold (fch_block \<sigma>) [0..<n] x"

definition fce :: "store \<Rightarrow> tensor \<Rightarrow> tensor" where
  "fce \<sigma> x = Linear (\<sigma> FceWeight) (\<sigma> FceBias) x"

definition forward :: "nat \<Rightarrow> store \<Rightarrow> tensor \<Rightarrow> tensor" where
  "forward n \<sigma> x = fce \<sigma> (fch n \<sigma> (fcs \<sigma> x))"

definition parameters :: "nat \<Rightarrow> leaf list" where
  "parameters n =
     [FcsWeight, FcsBias] @ concat (map (\<lambda>i. [FchWeight i, FchBias i]) [0..<n])
       @ [FceWeight, FceBias]"

section \<open>The notebook's state and the library\<close>

text \<open>
  The library functions whose results the notebook only passes on are parameters of the
  model, the record \<open>torch\<close>: the random generator (\<open>manual_seed\<close>, one draw of \<open>rand\<close>
  and of \<open>randn\<close>) and the optimiser \<open>torch.optim.Adam\<close> (its initial state for a learning
  rate, the new value of one entry of a parameter from its old value and its gradient,
  and its next state from the parameters and gradients it was given). Every theorem
  holds for every such record; the update rule of Adam itself is written out in the
  section on the optimiser, as the record \<open>with_Adam E\<close>.

  The state of the notebook is the record \<open>notebook\<close>: the global generator, the values
  and the \<open>.grad\<close> buffers of the leaves, and the Python variables of the two tasks.
  \<open>optimiser_steps\<close> counts the calls of \<open>optimiser.step()\<close>; it is not a variable of
  the notebook. The name \<open>mu\<close> is a Python number in Task 1 and a parameter tensor in
  Task 2 (\<open>pyval\<close>).
\<close>

datatype pyval = Number real | Parameter leaf

datatype stop = Raised error | NonFinite

record ('g, 'o) torch =
  manual_seed :: "nat \<Rightarrow> 'g"
  rand :: "'g \<Rightarrow> real \<times> 'g"
  randn :: "'g \<Rightarrow> real \<times> 'g"
  Adam :: "real \<Rightarrow> 'o"
  Adam_apply :: "'o \<Rightarrow> leaf \<Rightarrow> nat \<Rightarrow> nat \<Rightarrow> real \<Rightarrow> real \<Rightarrow> real"
  Adam_next :: "'o \<Rightarrow> (leaf \<times> tensor \<times> tensor option) list \<Rightarrow> 'o"

record ('g, 'o) notebook =
  rng :: 'g
  val :: store
  grad :: "leaf \<Rightarrow> tensor option"
  pinn :: nat
  optimiser_params :: "leaf list"
  optimiser_state :: 'o
  optimiser_steps :: nat
  d_var :: real
  w0_var :: real
  mu_var :: pyval
  k_var :: real
  t_test :: tensor
  u_exact :: "tensor option"
  t_obs :: tensor
  u_obs :: "tensor option"
  i_var :: "nat option"
  loss_var :: "tensor option"
  mus :: "real list"

fun draws :: "('g \<Rightarrow> real \<times> 'g) \<Rightarrow> nat \<Rightarrow> 'g \<Rightarrow> real list \<times> 'g" where
  "draws f 0 g = ([], g)"
| "draws f (Suc n) g =
     (case f g of (x, g') \<Rightarrow> (case draws f n g' of (xs, g'') \<Rightarrow> (x # xs, g'')))"

fun draw_rows :: "('g \<Rightarrow> real \<times> 'g) \<Rightarrow> nat \<Rightarrow> nat \<Rightarrow> 'g \<Rightarrow> tensor \<times> 'g" where
  "draw_rows f 0 c g = ([], g)"
| "draw_rows f (Suc r) c g =
     (case draws f c g of (row, g') \<Rightarrow> (case draw_rows f r c g' of (rows, g'') \<Rightarrow> (row # rows, g'')))"

definition uniform :: "('g, 'o) torch \<Rightarrow> real \<Rightarrow> 'g \<Rightarrow> real \<times> 'g" where
  "uniform E bound g = (case rand E g of (x, g') \<Rightarrow> ((2 * x - 1) * bound, g'))"

definition new_Linear ::
  "('g, 'o) torch \<Rightarrow> nat \<Rightarrow> nat \<Rightarrow> leaf \<Rightarrow> leaf \<Rightarrow> ('g, 'o) notebook \<Rightarrow> ('g, 'o) notebook" where
  "new_Linear E in_features out_features weight bias s =
     (case draw_rows (uniform E (1 / sqrt (real in_features))) out_features in_features (rng s) of
        (W, g1) \<Rightarrow>
          (case draw_rows (uniform E (1 / sqrt (real in_features))) 1 out_features g1 of
             (b, g2) \<Rightarrow>
               s\<lparr>rng := g2,
                 val := (val s)(weight := W, bias := b),
                 grad := (grad s)(weight := None, bias := None)\<rparr>))"

definition FCN ::
  "('g, 'o) torch \<Rightarrow> nat \<Rightarrow> nat \<Rightarrow> nat \<Rightarrow> nat \<Rightarrow> ('g, 'o) notebook \<Rightarrow> ('g, 'o) notebook" where
  "FCN E N_INPUT N_OUTPUT N_HIDDEN N_LAYERS s =
     (new_Linear E N_HIDDEN N_OUTPUT FceWeight FceBias
        (fold (\<lambda>i. new_Linear E N_HIDDEN N_HIDDEN (FchWeight i) (FchBias i)) [0..<N_LAYERS - 1]
           (new_Linear E N_INPUT N_HIDDEN FcsWeight FcsBias s)))
     \<lparr>pinn := N_LAYERS - 1\<rparr>"

definition new_leaf :: "leaf \<Rightarrow> tensor \<Rightarrow> ('g, 'o) notebook \<Rightarrow> ('g, 'o) notebook" where
  "new_leaf l v s = s\<lparr>val := (val s)(l := v), grad := (grad s)(l := None)\<rparr>"

fun randn_like :: "('g, 'o) torch \<Rightarrow> tensor \<Rightarrow> 'g \<Rightarrow> tensor \<times> 'g" where
  "randn_like E [] g = ([], g)"
| "randn_like E (row # rows) g =
     (case draws (randn E) (length row) g of
        (xs, g') \<Rightarrow> (case randn_like E rows g' of (rest, g'') \<Rightarrow> (xs # rest, g'')))"

section \<open>The backward pass and the optimiser\<close>

text \<open>
  \<open>optimiser.zero_grad()\<close> clears the gradient buffers of the optimiser's parameters.
  \<open>loss.backward()\<close> raises unless \<open>loss\<close> has one element, and otherwise adds to the
  buffer of every leaf of the graph the gradient of the loss with respect to it; the
  leaves of the graph are an argument of \<open>backward\<close>, and each loop passes the leaves
  its loss is computed from.
  \<open>optimiser.step()\<close> gives every parameter of the optimiser that has a gradient its
  new value.
\<close>

definition zero_grad :: "('g, 'o) notebook \<Rightarrow> ('g, 'o) notebook" where
  "zero_grad s = s\<lparr>grad := (\<lambda>l. if l \<in> set (optimiser_params s) then None else grad s l)\<rparr>"

definition accumulate :: "tensor option \<Rightarrow> tensor \<Rightarrow> tensor" where
  "accumulate old g = (case old of None \<Rightarrow> g | Some g0 \<Rightarrow> tmap2 (+) g0 g)"

definition gradient :: "node \<Rightarrow> leaf \<Rightarrow> store \<Rightarrow> tensor" where
  "gradient loss l \<sigma> = autograd_grad loss l (\<lambda>\<sigma>. ones_like (loss \<sigma>)) \<sigma>"

definition accumulate_grads ::
  "node \<Rightarrow> leaf list \<Rightarrow> ('g, 'o) notebook \<Rightarrow> ('g, 'o) notebook" where
  "accumulate_grads loss leaves s =
     s\<lparr>grad := (\<lambda>l. if l \<in> set leaves
          then Some (accumulate (grad s l) (gradient loss l (val s)))
          else grad s l)\<rparr>"

definition backward :: "node \<Rightarrow> leaf list \<Rightarrow> ('g, 'o) notebook \<Rightarrow> stop + ('g, 'o) notebook" where
  "backward loss leaves s =
     (if numel (loss (val s)) \<noteq> 1 then Inl (Raised RuntimeError)
      else Inr (accumulate_grads loss leaves s))"

definition Adam_tensor :: "('g, 'o) torch \<Rightarrow> 'o \<Rightarrow> leaf \<Rightarrow> tensor \<Rightarrow> tensor \<Rightarrow> tensor" where
  "Adam_tensor E st l v g = imap (\<lambda>r c x. Adam_apply E st l r c x (g ! r ! c)) v"

definition step :: "('g, 'o) torch \<Rightarrow> ('g, 'o) notebook \<Rightarrow> ('g, 'o) notebook" where
  "step E s =
     s\<lparr>val := (\<lambda>l. if l \<in> set (optimiser_params s)
          then (case grad s l of
                  None \<Rightarrow> val s l
                | Some g \<Rightarrow> Adam_tensor E (optimiser_state s) l (val s l) g)
          else val s l),
       optimiser_state :=
         Adam_next E (optimiser_state s) (map (\<lambda>l. (l, val s l, grad s l)) (optimiser_params s)),
       optimiser_steps := Suc (optimiser_steps s)\<rparr>"











section \<open>The losses\<close>

text \<open>
  Task 1, the body of the loop:
  \<^verbatim>\<open>
  lambda1, lambda2 = 1e-1, 1e-4
  u = pinn(t_boundary)
  loss1 = (torch.squeeze(u) - 1)**2
  dudt = torch.autograd.grad(u, t_boundary, torch.ones_like(u), create_graph=True)[0]
  loss2 = (torch.squeeze(dudt) - 0)**2
  u = pinn(t_physics)
  dudt = torch.autograd.grad(u, t_physics, torch.ones_like(u), create_graph=True)[0]
  d2udt2 = torch.autograd.grad(dudt, t_physics, torch.ones_like(dudt), create_graph=True)[0]
  loss3 = torch.mean((d2udt2 + mu*dudt + k*u)**2)
  loss = loss1 + lambda1*loss2 + lambda2*loss3
  \<close>
  Task 2:
  \<^verbatim>\<open>
  lambda1 = 1e4
  u = pinn(t_physics)
  dudt = ...; d2udt2 = ...                    (as in Task 1)
  loss1 = torch.mean((d2udt2 + mu*dudt + k*u)**2)
  u = pinn(t_obs)
  loss2 = torch.mean((u - u_obs)**2)
  loss = loss1 + lambda1*loss2
  \<close>
  \<open>u_node\<close>, \<open>dudt_node\<close> and \<open>d2udt2_node\<close> are \<open>u\<close>, \<open>dudt\<close> and \<open>d2udt2\<close> for an input
  leaf \<open>t\<close>; \<open>physics_residual\<close> is \<open>d2udt2 + mu*dudt + k*u\<close>.
\<close>

definition times :: "pyval \<Rightarrow> store \<Rightarrow> tensor \<Rightarrow> tensor" where
  "times v \<sigma> T = (case v of Number c \<Rightarrow> tmap ((*) c) T | Parameter l \<Rightarrow> broadcast (*) (\<sigma> l) T)"

definition u_node :: "nat \<Rightarrow> leaf \<Rightarrow> node" where
  "u_node n t = (\<lambda>\<sigma>. forward n \<sigma> (\<sigma> t))"

definition dudt_node :: "nat \<Rightarrow> leaf \<Rightarrow> node" where
  "dudt_node n t = autograd_grad (u_node n t) t (\<lambda>\<sigma>. ones_like (u_node n t \<sigma>))"

definition d2udt2_node :: "nat \<Rightarrow> leaf \<Rightarrow> node" where
  "d2udt2_node n t = autograd_grad (dudt_node n t) t (\<lambda>\<sigma>. ones_like (dudt_node n t \<sigma>))"

definition physics_residual :: "nat \<Rightarrow> pyval \<Rightarrow> real \<Rightarrow> node" where
  "physics_residual n mu k = (\<lambda>\<sigma>.
     broadcast (+)
       (broadcast (+) (d2udt2_node n TPhysics \<sigma>) (times mu \<sigma> (dudt_node n TPhysics \<sigma>)))
       (tmap ((*) k) (u_node n TPhysics \<sigma>)))"

definition task1_loss :: "nat \<Rightarrow> pyval \<Rightarrow> real \<Rightarrow> node" where
  "task1_loss n mu k =
     (let lambda1 = 1 / 10; lambda2 = 1 / 10 ^ 4;
          loss1 = (\<lambda>\<sigma>. tmap (\<lambda>x. (x - 1)\<^sup>2) (squeeze (u_node n TBoundary \<sigma>)));
          loss2 = (\<lambda>\<sigma>. tmap (\<lambda>x. (x - 0)\<^sup>2) (squeeze (dudt_node n TBoundary \<sigma>)));
          loss3 = (\<lambda>\<sigma>. mean (tmap (\<lambda>x. x\<^sup>2) (physics_residual n mu k \<sigma>)))
      in (\<lambda>\<sigma>. broadcast (+)
            (broadcast (+) (loss1 \<sigma>) (tmap ((*) lambda1) (loss2 \<sigma>)))
            (tmap ((*) lambda2) (loss3 \<sigma>))))"

definition task2_loss :: "nat \<Rightarrow> pyval \<Rightarrow> real \<Rightarrow> tensor \<Rightarrow> tensor \<Rightarrow> node" where
  "task2_loss n mu k tobs uobs =
     (let lambda1 = 10 ^ 4;
          loss1 = (\<lambda>\<sigma>. mean (tmap (\<lambda>x. x\<^sup>2) (physics_residual n mu k \<sigma>)));
          loss2 = (\<lambda>\<sigma>. mean (tmap (\<lambda>x. x\<^sup>2) (broadcast (-) (forward n \<sigma> tobs) uobs)))
      in (\<lambda>\<sigma>. broadcast (+) (loss1 \<sigma>) (tmap ((*) lambda1) (loss2 \<sigma>))))"

section \<open>The training loops and the cells\<close>

text \<open>
  \<^verbatim>\<open>
  for i in range(15001):
      optimiser.zero_grad()
      ...                                     (the loss, above)
      loss.backward()
      optimiser.step()
      mus.append(mu.item())                   (Task 2 only)
      if i % 5000 == 0: ...                   (plots)
  \<close>
  The plots read the state and change none of the variables modelled here. A cell is a
  function of the state it is run in. The cells assign \<open>d, w0 = 2, 20\<close>; the model takes
  the two numbers as arguments, and the cells of the notebook are \<open>task1 E 2 20\<close>,
  \<open>observe E 2 20\<close> and \<open>task2_setup E 2 20\<close> followed by the loop. A result \<open>Inl (Raised e)\<close>
  is an exception; \<open>Inl NonFinite\<close> says that \<open>nan\<close> or \<open>inf\<close> has arisen in the observations,
  a run the model does not follow. \<open>task1_run\<close> and \<open>task2_run\<close> stop the loop after \<open>n\<close>
  iterations; \<open>task2_run\<close> runs the cell that makes the observations first.
\<close>

fun for_loop :: "(nat \<Rightarrow> 's \<Rightarrow> stop + 's) \<Rightarrow> nat list \<Rightarrow> 's \<Rightarrow> stop + 's" where
  "for_loop body [] s = Inr s"
| "for_loop body (i # is) s =
     (case body i s of Inl e \<Rightarrow> Inl e | Inr s' \<Rightarrow> for_loop body is s')"

definition task1_step ::
  "('g, 'o) torch \<Rightarrow> nat \<Rightarrow> ('g, 'o) notebook \<Rightarrow> stop + ('g, 'o) notebook" where
  "task1_step E i s0 =
     (let s = zero_grad (s0\<lparr>i_var := Some i\<rparr>);
          loss = task1_loss (pinn s) (mu_var s) (k_var s)
      in case backward loss (parameters (pinn s) @ [TBoundary, TPhysics])
                (s\<lparr>loss_var := Some (loss (val s))\<rparr>) of
           Inl e \<Rightarrow> Inl e
         | Inr s' \<Rightarrow> Inr (step E s'))"

definition mu_item :: "pyval \<Rightarrow> store \<Rightarrow> error + real" where
  "mu_item v \<sigma> = (case v of Number c \<Rightarrow> Inl AttributeError | Parameter l \<Rightarrow> item (\<sigma> l))"

definition task2_step ::
  "('g, 'o) torch \<Rightarrow> nat \<Rightarrow> ('g, 'o) notebook \<Rightarrow> stop + ('g, 'o) notebook" where
  "task2_step E i s0 =
     (case u_obs s0 of
        None \<Rightarrow> Inl NonFinite
      | Some uo \<Rightarrow>
         (let s = zero_grad (s0\<lparr>i_var := Some i\<rparr>);
              loss = task2_loss (pinn s) (mu_var s) (k_var s) (t_obs s) uo
          in case backward loss (parameters (pinn s) @ [Mu, TPhysics])
                    (s\<lparr>loss_var := Some (loss (val s))\<rparr>) of
               Inl e \<Rightarrow> Inl e
             | Inr s' \<Rightarrow>
                (case mu_item (mu_var s') (val (step E s')) of
                   Inl e \<Rightarrow> Inl (Raised e)
                 | Inr m \<Rightarrow> Inr ((step E s')\<lparr>mus := mus s' @ [m]\<rparr>))))"

definition task1_setup ::
  "('g, 'o) torch \<Rightarrow> real \<Rightarrow> real \<Rightarrow> ('g, 'o) notebook \<Rightarrow> stop + ('g, 'o) notebook" where
  "task1_setup E d w0 s0 =
     (let s = s0\<lparr>rng := manual_seed E 123\<rparr>;
          s = FCN E 1 1 32 3 s;
          s = new_leaf TBoundary (view_col [0]) s;
          s = new_leaf TPhysics (view_col (linspace 0 1 30)) s;
          s = s\<lparr>d_var := d, w0_var := w0\<rparr>;
          s = s\<lparr>mu_var := Number (2 * d_var s), k_var := (w0_var s)\<^sup>2\<rparr>;
          s = s\<lparr>t_test := view_col (linspace 0 1 300)\<rparr>
      in case exact_solution (d_var s) (w0_var s) (t_test s) of
           Inl e \<Rightarrow> Inl (Raised e)
         | Inr ue \<Rightarrow>
             Inr (s\<lparr>u_exact := ue,
                    optimiser_params := parameters (pinn s),
                    optimiser_state := Adam E (1 / 10 ^ 3),
                    optimiser_steps := 0\<rparr>))"

definition task1_run ::
  "('g, 'o) torch \<Rightarrow> real \<Rightarrow> real \<Rightarrow> nat \<Rightarrow> ('g, 'o) notebook \<Rightarrow> stop + ('g, 'o) notebook" where
  "task1_run E d w0 n s0 =
     (case task1_setup E d w0 s0 of
        Inl e \<Rightarrow> Inl e
      | Inr s \<Rightarrow> for_loop (task1_step E) [0..<n] s)"

definition task1 ::
  "('g, 'o) torch \<Rightarrow> real \<Rightarrow> real \<Rightarrow> ('g, 'o) notebook \<Rightarrow> stop + ('g, 'o) notebook" where
  "task1 E d w0 s0 = task1_run E d w0 15001 s0"

definition observe ::
  "('g, 'o) torch \<Rightarrow> real \<Rightarrow> real \<Rightarrow> ('g, 'o) notebook \<Rightarrow> stop + ('g, 'o) notebook" where
  "observe E d w0 s0 =
     (let s = s0\<lparr>rng := manual_seed E 123\<rparr>;
          s = s\<lparr>d_var := d, w0_var := w0\<rparr>
      in case draws (rand E) 40 (rng s) of
        (xs, g1) \<Rightarrow>
          (let s = s\<lparr>rng := g1, t_obs := view_col xs\<rparr> in
           case exact_solution (d_var s) (w0_var s) (t_obs s) of
             Inl e \<Rightarrow> Inl (Raised e)
           | Inr ex \<Rightarrow>
              (case randn_like E (t_obs s) (rng s) of
                 (noise, g2) \<Rightarrow>
                   (let s = s\<lparr>rng := g2,
                              u_obs := map_option (\<lambda>u. broadcast (+) u (tmap ((*) (4 / 100)) noise)) ex\<rparr>;
                        s = s\<lparr>t_test := view_col (linspace 0 1 300)\<rparr>
                    in case exact_solution (d_var s) (w0_var s) (t_test s) of
                         Inl e \<Rightarrow> Inl (Raised e)
                       | Inr ue \<Rightarrow> Inr (s\<lparr>u_exact := ue\<rparr>)))))"

definition task2_setup ::
  "('g, 'o) torch \<Rightarrow> real \<Rightarrow> real \<Rightarrow> ('g, 'o) notebook \<Rightarrow> stop + ('g, 'o) notebook" where
  "task2_setup E d w0 s0 =
     (let s = s0\<lparr>rng := manual_seed E 123\<rparr>;
          s = FCN E 1 1 32 3 s;
          s = new_leaf TPhysics (view_col (linspace 0 1 30)) s;
          s = s\<lparr>d_var := d, w0_var := w0\<rparr>;
          s = s\<lparr>k_var := (w0_var s)\<^sup>2\<rparr>;
          s = s\<lparr>t_test := view_col (linspace 0 1 300)\<rparr>
      in case exact_solution (d_var s) (w0_var s) (t_test s) of
           Inl e \<Rightarrow> Inl (Raised e)
         | Inr ue \<Rightarrow>
             (let s = new_leaf Mu [[0]] (s\<lparr>u_exact := ue\<rparr>);
                  s = s\<lparr>mu_var := Parameter Mu\<rparr>
              in Inr (s\<lparr>optimiser_params := parameters (pinn s) @ [Mu],
                       optimiser_state := Adam E (1 / 10 ^ 3),
                       optimiser_steps := 0,
                       mus := []\<rparr>)))"

definition task2_run ::
  "('g, 'o) torch \<Rightarrow> real \<Rightarrow> real \<Rightarrow> nat \<Rightarrow> ('g, 'o) notebook \<Rightarrow> stop + ('g, 'o) notebook" where
  "task2_run E d w0 n s0 =
     (case observe E d w0 s0 of
        Inl e \<Rightarrow> Inl e
      | Inr s1 \<Rightarrow>
         (case task2_setup E d w0 s1 of
            Inl e \<Rightarrow> Inl e
          | Inr s \<Rightarrow> for_loop (task2_step E) [0..<n] s))"

definition task2 ::
  "('g, 'o) torch \<Rightarrow> real \<Rightarrow> real \<Rightarrow> ('g, 'o) notebook \<Rightarrow> stop + ('g, 'o) notebook" where
  "task2 E d w0 s0 = task2_run E d w0 15001 s0"

section \<open>Notions of the statements and proofs\<close>

text \<open>
  \<open>osc\<close> is the damped oscillation that \<open>exact_solution\<close> returns. \<open>NN n \<sigma> t\<close> is
  the network as a function of one number. \<open>scalar_output\<close>
  says that the output layer has one feature (\<open>N_OUTPUT = 1\<close>). \<open>task1_inv\<close> and
  \<open>task2_inv\<close> are the invariants of the two loops, and \<open>trained\<close> is the state after one
  iteration. \<open>unchanged\<close> lists what an iteration leaves as it is. \<open>depends_on S u\<close>
  says that the node \<open>u\<close> reads the leaves in \<open>S\<close> only, and \<open>sim1\<close> relates two runs of
  Task 1 that agree on everything the loop reads. \<open>adam_inv\<close> is what every state of
  Adam in a run of Task 2 satisfies: the learning rate is \<open>1e-3\<close> and no entry of
  \<open>exp_avg_sq\<close> is negative. \<open>sgd_torch\<close>, \<open>empty_notebook\<close> and
  \<open>small_store\<close> are a concrete library record (a counter as generator, gradient descent
  as update), the state of a new kernel and a store of a small network; they serve to
  instantiate the theorems.
\<close>

definition osc :: "real \<Rightarrow> real \<Rightarrow> real \<Rightarrow> real \<Rightarrow> real \<Rightarrow> real" where
  "osc d w phi A x = exp (- d * x) * 2 * A * cos (phi + w * x)"

definition twice_differentiable :: "(real \<Rightarrow> real) \<Rightarrow> bool" where
  "twice_differentiable f =
     (\<exists>f' f''. (\<forall>t. (f has_real_derivative f' t) (at t))
        \<and> (\<forall>t. (f' has_real_derivative f'' t) (at t)))"

definition smooth :: "nat \<Rightarrow> (real \<Rightarrow> real list) \<Rightarrow> bool" where
  "smooth m v = ((\<forall>t. length (v t) = m) \<and> (\<forall>k<m. twice_differentiable (\<lambda>t. v t ! k)))"

definition row_block :: "store \<Rightarrow> nat \<Rightarrow> real list \<Rightarrow> real list" where
  "row_block \<sigma> i v = map tanh (affine (\<sigma> (FchWeight i)) (concat (\<sigma> (FchBias i))) v)"

definition row :: "nat \<Rightarrow> store \<Rightarrow> real list \<Rightarrow> real list" where
  "row n \<sigma> x =
     affine (\<sigma> FceWeight) (concat (\<sigma> FceBias))
       (fold (row_block \<sigma>) [0..<n] (map tanh (affine (\<sigma> FcsWeight) (concat (\<sigma> FcsBias)) x)))"

definition NN :: "nat \<Rightarrow> store \<Rightarrow> real \<Rightarrow> real" where
  "NN n \<sigma> t = forward n \<sigma> [[t]] ! 0 ! 0"

definition scalar_output :: "store \<Rightarrow> bool" where
  "scalar_output \<sigma> = (length (\<sigma> FceWeight) = 1 \<and> numel (\<sigma> FceBias) = 1)"

definition only_net :: "('g, 'o) notebook \<Rightarrow> ('g, 'o) notebook \<Rightarrow> bool" where
  "only_net s s' = (\<exists>g v gr p. s' = s\<lparr>rng := g, val := v, grad := gr, pinn := p\<rparr>)"

definition task1_inv :: "real \<Rightarrow> real \<Rightarrow> ('g, 'o) notebook \<Rightarrow> bool" where
  "task1_inv d w0 s =
     (scalar_output (val s) \<and> val s TBoundary = view_col [0]
      \<and> val s TPhysics = view_col (linspace 0 1 30)
      \<and> pinn s = 2 \<and> optimiser_params s = parameters 2
      \<and> mu_var s = Number (2 * d) \<and> k_var s = w0\<^sup>2)"

definition trained ::
  "('g, 'o) torch \<Rightarrow> node \<Rightarrow> leaf list \<Rightarrow> nat \<Rightarrow> ('g, 'o) notebook \<Rightarrow> ('g, 'o) notebook" where
  "trained E loss leaves i s =
     step E (accumulate_grads loss leaves
       ((zero_grad (s\<lparr>i_var := Some i\<rparr>))\<lparr>loss_var := Some (loss (val s))\<rparr>))"

definition observed :: "('g, 'o) notebook \<Rightarrow> bool" where
  "observed s = (\<exists>xs ys. t_obs s = view_col xs \<and> u_obs s = Some (view_col ys)
     \<and> length xs = length ys)"

definition task2_inv :: "real \<Rightarrow> real \<Rightarrow> ('g, 'o) notebook \<Rightarrow> bool" where
  "task2_inv d w0 s =
     (scalar_output (val s) \<and> (\<exists>m. val s Mu = [[m]])
      \<and> val s TPhysics = view_col (linspace 0 1 30)
      \<and> pinn s = 2 \<and> optimiser_params s = parameters 2 @ [Mu]
      \<and> mu_var s = Parameter Mu \<and> k_var s = w0\<^sup>2 \<and> observed s)"

definition the_mu :: "('g, 'o) notebook \<Rightarrow> real" where
  "the_mu s = val s Mu ! 0 ! 0"

definition sgd_torch :: "(nat, real) torch" where
  "sgd_torch =
     \<lparr>manual_seed = (\<lambda>seed. seed),
      rand = (\<lambda>g. (1 / 2, Suc g)),
      randn = (\<lambda>g. (0, Suc g)),
      Adam = (\<lambda>lr. lr),
      Adam_apply = (\<lambda>lr l r c x g. x - lr * g),
      Adam_next = (\<lambda>lr ps. lr)\<rparr>"

definition empty_notebook :: "(nat, real) notebook" where
  "empty_notebook =
     \<lparr>rng = 0, val = (\<lambda>l. []), grad = (\<lambda>l. None), pinn = 0,
      optimiser_params = [], optimiser_state = 0, optimiser_steps = 0,
      d_var = 0, w0_var = 0, mu_var = Number 0, k_var = 0,
      t_test = [], u_exact = None, t_obs = [], u_obs = None,
      i_var = None, loss_var = None, mus = []\<rparr>"

definition unchanged :: "('g, 'o) notebook \<Rightarrow> ('g, 'o) notebook \<Rightarrow> bool" where
  "unchanged s s' =
     (val s' TBoundary = val s TBoundary \<and> val s' TPhysics = val s TPhysics
      \<and> t_obs s' = t_obs s \<and> u_obs s' = u_obs s
      \<and> t_test s' = t_test s \<and> u_exact s' = u_exact s
      \<and> rng s' = rng s \<and> pinn s' = pinn s \<and> optimiser_params s' = optimiser_params s
      \<and> d_var s' = d_var s \<and> w0_var s' = w0_var s \<and> mu_var s' = mu_var s
      \<and> k_var s' = k_var s)"

definition small_store :: store where
  "small_store = (\<lambda>l. [[1]])(TPhysics := view_col [0, 1 / 2, 1])"

definition agree :: "leaf set \<Rightarrow> store \<Rightarrow> store \<Rightarrow> bool" where
  "agree S \<sigma> \<sigma>' = (\<forall>l\<in>S. \<sigma> l = \<sigma>' l)"

definition depends_on :: "leaf set \<Rightarrow> node \<Rightarrow> bool" where
  "depends_on S u = (\<forall>\<sigma> \<sigma>'. agree S \<sigma> \<sigma>' \<longrightarrow> u \<sigma> = u \<sigma>')"

definition same_net :: "leaf set \<Rightarrow> ('g, 'o) notebook \<Rightarrow> ('g, 'o) notebook \<Rightarrow> bool" where
  "same_net K a b = (rng a = rng b \<and> (\<forall>l\<in>K. val a l = val b l \<and> grad a l = grad b l))"

definition task1_leaves :: "leaf set" where
  "task1_leaves = set (parameters 2 @ [TBoundary, TPhysics])"

definition sim1 :: "real \<Rightarrow> real \<Rightarrow> ('g, 'o) notebook \<Rightarrow> ('g, 'o) notebook \<Rightarrow> bool" where
  "sim1 d w0 a b =
     (task1_inv d w0 a \<and> task1_inv d w0 b \<and> agree task1_leaves (val a) (val b)
      \<and> (\<forall>l\<in>task1_leaves. grad a l = grad b l)
      \<and> optimiser_state a = optimiser_state b \<and> optimiser_steps a = optimiser_steps b)"


section \<open>Lemmas\<close>

subsection \<open>The damped oscillation\<close>

lemma tmap_tmap: "tmap f (tmap g M) = tmap (f \<circ> g) M"
  by (simp add: tmap_def)

lemma map2_same: "map2 f (map g xs) (map h xs) = map (\<lambda>x. f (g x) (h x)) xs"
  by (induction xs) simp_all

lemma tmap2_tmap: "tmap2 f (tmap g M) (tmap h M) = tmap (\<lambda>x. f (g x) (h x)) M"
  by (induction M) (simp_all add: tmap_def tmap2_def map2_same)

lemma underdamped_discriminant:
  fixes d w0 :: real
  assumes "\<bar>d\<bar> < w0"
  shows "0 < w0\<^sup>2 - d\<^sup>2"
proof -
  have "\<bar>d\<bar> * \<bar>d\<bar> < w0 * w0"
    using assms by (intro mult_strict_mono') auto
  then show ?thesis
    by (simp add: power2_eq_square)
qed

lemma exact_solution_underdamped:
  assumes "\<bar>d\<bar> < w0"
  shows "exact_solution d w0 t =
    Inr (Some (tmap (osc d (sqrt (w0\<^sup>2 - d\<^sup>2)) (arctan (- d / sqrt (w0\<^sup>2 - d\<^sup>2)))
      (1 / (2 * cos (arctan (- d / sqrt (w0\<^sup>2 - d\<^sup>2)))))) t))"
proof -
  from assms have dw: "d < w0" by simp
  have pos: "0 < w0\<^sup>2 - d\<^sup>2"
    by (rule underdamped_discriminant [OF assms])
  then have w: "sqrt (w0\<^sup>2 - d\<^sup>2) \<noteq> 0" by simp
  show ?thesis
    using dw pos w
    by (simp add: exact_solution_def np_sqrt_def np_div_def cos_arctan_not_zero Let_def
          tmap_tmap tmap2_tmap comp_def osc_def [abs_def] del: cos_arctan)
qed

subsection \<open>Twice differentiable functions\<close>

lemma pderiv_eq: "(f has_real_derivative D) (at a) \<Longrightarrow> pderiv f a = D"
  unfolding pderiv_def by (rule the_equality) (auto intro: DERIV_unique)

lemma tdI:
  assumes "\<And>t. (f has_real_derivative f' t) (at t)"
    and "\<And>t. (f' has_real_derivative f'' t) (at t)"
  shows "twice_differentiable f"
  unfolding twice_differentiable_def using assms by blast

lemma td_const: "twice_differentiable (\<lambda>t. c)"
  unfolding twice_differentiable_def
  by (rule exI [of _ "\<lambda>t. 0"], rule exI [of _ "\<lambda>t. 0"]) simp

lemma td_ident: "twice_differentiable (\<lambda>t. t)"
  unfolding twice_differentiable_def
  by (rule exI [of _ "\<lambda>t. 1"], rule exI [of _ "\<lambda>t. 0"]) simp

lemma td_add:
  assumes "twice_differentiable f" "twice_differentiable g"
  shows "twice_differentiable (\<lambda>t. f t + g t)"
proof -
  from assms obtain f' f'' g' g'' where
    f: "\<And>t. (f has_real_derivative f' t) (at t)" "\<And>t. (f' has_real_derivative f'' t) (at t)" and
    g: "\<And>t. (g has_real_derivative g' t) (at t)" "\<And>t. (g' has_real_derivative g'' t) (at t)"
    unfolding twice_differentiable_def by blast
  have 1: "\<And>t. ((\<lambda>t. f t + g t) has_real_derivative f' t + g' t) (at t)"
    by (auto intro!: derivative_eq_intros f g)
  have 2: "\<And>t. ((\<lambda>t. f' t + g' t) has_real_derivative f'' t + g'' t) (at t)"
    by (auto intro!: derivative_eq_intros f g)
  show ?thesis
    by (rule tdI [OF 1 2])
qed

lemma td_cmult:
  assumes "twice_differentiable f"
  shows "twice_differentiable (\<lambda>t. f t * c)"
proof -
  from assms obtain f' f'' where
    f: "\<And>t. (f has_real_derivative f' t) (at t)" "\<And>t. (f' has_real_derivative f'' t) (at t)"
    unfolding twice_differentiable_def by blast
  have 1: "\<And>t. ((\<lambda>t. f t * c) has_real_derivative f' t * c) (at t)"
    by (auto intro!: derivative_eq_intros f)
  have 2: "\<And>t. ((\<lambda>t. f' t * c) has_real_derivative f'' t * c) (at t)"
    by (auto intro!: derivative_eq_intros f)
  show ?thesis
    by (rule tdI [OF 1 2])
qed

lemma td_tanh:
  assumes "twice_differentiable f"
  shows "twice_differentiable (\<lambda>t. tanh (f t))"
proof -
  from assms obtain f' f'' where
    f: "\<And>t. (f has_real_derivative f' t) (at t)" "\<And>t. (f' has_real_derivative f'' t) (at t)"
    unfolding twice_differentiable_def by blast
  have c: "\<And>x :: real. cosh x \<noteq> 0"
    by (simp add: cosh_real_nonzero)
  have 1: "\<And>t. ((\<lambda>t. tanh (f t)) has_real_derivative (1 - (tanh (f t))\<^sup>2) * f' t) (at t)"
    by (auto intro!: derivative_eq_intros f c)
  have 2: "\<And>t. ((\<lambda>t. (1 - (tanh (f t))\<^sup>2) * f' t) has_real_derivative
      (- (2 * tanh (f t) * ((1 - (tanh (f t))\<^sup>2) * f' t))) * f' t + (1 - (tanh (f t))\<^sup>2) * f'' t) (at t)"
    by (auto intro!: derivative_eq_intros f c simp: algebra_simps)
  show ?thesis
    by (rule tdI [OF 1 2])
qed

lemma td_sum:
  assumes "finite S" "\<And>k. k \<in> S \<Longrightarrow> twice_differentiable (f k)"
  shows "twice_differentiable (\<lambda>t. \<Sum>k\<in>S. f k t)"
  using assms
proof (induction S rule: finite_induct)
  case empty
  then show ?case by (simp add: td_const)
next
  case (insert x F)
  then show ?case by (simp add: td_add)
qed

subsection \<open>The network is smooth in its input\<close>

lemma fold_blocks_map:
  "fold (fch_block \<sigma>) is (map f X) = map (\<lambda>x. fold (row_block \<sigma>) is (f x)) X"
  by (induction "is" arbitrary: f)
     (simp_all add: fch_block_def row_block_def Tanh_def tmap_def Linear_def comp_def)

lemma forward_rows: "forward n \<sigma> X = map (row n \<sigma>) X"
proof -
  have "fcs \<sigma> X = map (\<lambda>x. map tanh (affine (\<sigma> FcsWeight) (concat (\<sigma> FcsBias)) x)) X"
    by (simp add: fcs_def Tanh_def tmap_def Linear_def)
  then show ?thesis
    by (simp add: forward_def fch_def fce_def Linear_def fold_blocks_map row_def)
qed

lemma dot_sum: "dot x w = (\<Sum>k<min (length x) (length w). x ! k * w ! k)"
proof -
  have "dot x w = (\<Sum>k = 0..<length (map2 (*) x w). map2 (*) x w ! k)"
    unfolding dot_def by (rule sum_list_sum_nth)
  also have "\<dots> = (\<Sum>k<min (length x) (length w). x ! k * w ! k)"
    by (rule sum.cong) (auto simp: atLeast0LessThan)
  finally show ?thesis .
qed

lemma length_affine: "length (affine W b x) = min (length W) (length b)"
  by (simp add: affine_def)

lemma nth_affine:
  "k < length W \<Longrightarrow> k < length b \<Longrightarrow> affine W b x ! k = dot x (W ! k) + b ! k"
  by (simp add: affine_def)

lemma smooth_affine:
  assumes "smooth m v"
  shows "smooth (min (length W) (length b)) (\<lambda>t. affine W b (v t))"
  unfolding smooth_def
proof (intro conjI allI impI)
  fix t show "length (affine W b (v t)) = min (length W) (length b)"
    by (rule length_affine)
next
  fix k assume k: "k < min (length W) (length b)"
  from assms have len: "\<And>t. length (v t) = m"
    and td: "\<And>j. j < m \<Longrightarrow> twice_differentiable (\<lambda>t. v t ! j)"
    by (simp_all add: smooth_def)
  have eq: "(\<lambda>t. affine W b (v t) ! k)
      = (\<lambda>t. (\<Sum>j\<in>{..<min m (length (W ! k))}. v t ! j * (W ! k) ! j) + b ! k)"
    using k by (simp add: nth_affine dot_sum len)
  have "twice_differentiable (\<lambda>t. \<Sum>j\<in>{..<min m (length (W ! k))}. v t ! j * (W ! k) ! j)"
    by (rule td_sum) (auto intro: td_cmult td)
  then show "twice_differentiable (\<lambda>t. affine W b (v t) ! k)"
    unfolding eq by (intro td_add td_const)
qed

lemma smooth_tanh:
  assumes "smooth m v"
  shows "smooth m (\<lambda>t. map tanh (v t))"
  using assms unfolding smooth_def
  by (auto intro: td_tanh)

lemma smooth_input: "smooth 1 (\<lambda>t. [t])"
  by (simp add: smooth_def td_ident)

lemma smooth_blocks:
  assumes "smooth m v"
  shows "\<exists>m'. smooth m' (\<lambda>t. fold (row_block \<sigma>) is (v t))"
  using assms
proof (induction "is" arbitrary: m v)
  case Nil
  then show ?case by auto
next
  case (Cons i "is")
  have "smooth (min (length (\<sigma> (FchWeight i))) (length (concat (\<sigma> (FchBias i)))))
      (\<lambda>t. row_block \<sigma> i (v t))"
    unfolding row_block_def by (intro smooth_tanh smooth_affine) (rule Cons.prems)
  from Cons.IH [OF this] show ?case by simp
qed

lemma smooth_row:
  "smooth (min (length (\<sigma> FceWeight)) (length (concat (\<sigma> FceBias)))) (\<lambda>t. row n \<sigma> [t])"
proof -
  have "smooth (min (length (\<sigma> FcsWeight)) (length (concat (\<sigma> FcsBias))))
      (\<lambda>t. map tanh (affine (\<sigma> FcsWeight) (concat (\<sigma> FcsBias)) [t]))"
    by (intro smooth_tanh smooth_affine) (rule smooth_input)
  from smooth_blocks [OF this] obtain m' where
    "smooth m' (\<lambda>t. fold (row_block \<sigma>) [0..<n]
        (map tanh (affine (\<sigma> FcsWeight) (concat (\<sigma> FcsBias)) [t])))"
    by blast
  then show ?thesis
    unfolding row_def by (rule smooth_affine)
qed

lemma forward_scalar:
  assumes "scalar_output \<sigma>"
  shows "forward n \<sigma> (view_col ts) = view_col (map (NN n \<sigma>) ts)"
proof -
  have len: "\<And>x. length (row n \<sigma> x) = 1"
    using assms by (simp add: row_def length_affine scalar_output_def numel_def)
  have "\<And>x. row n \<sigma> x = [row n \<sigma> x ! 0]"
  proof -
    fix x show "row n \<sigma> x = [row n \<sigma> x ! 0]"
      using len [of x] by (cases "row n \<sigma> x") simp_all
  qed
  then have "\<And>t. row n \<sigma> [t] = [NN n \<sigma> t]"
    by (simp add: NN_def forward_rows)
  then show ?thesis
    by (simp add: forward_rows view_col_def comp_def)
qed

lemma NN_twice_differentiable:
  assumes "scalar_output \<sigma>"
  shows "twice_differentiable (NN n \<sigma>)"
proof -
  have "smooth 1 (\<lambda>t. row n \<sigma> [t])"
    using smooth_row [of \<sigma> n] assms by (simp add: scalar_output_def numel_def)
  then have "twice_differentiable (\<lambda>t. row n \<sigma> [t] ! 0)"
    by (simp add: smooth_def)
  then show ?thesis
    by (simp add: NN_def [abs_def] forward_rows)
qed

subsection \<open>A reverse pass seeded with ones, for a node that acts row by row\<close>

lemma view_col_nth: "view_col ts = map (\<lambda>r. [ts ! r]) [0..<length ts]"
  unfolding view_col_def by (rule nth_equalityI) simp_all

lemma poke_same:
  assumes "\<sigma> l = view_col ts" "r < length ts"
  shows "poke \<sigma> l r 0 (ts ! r) = \<sigma>"
  using assms by (auto simp: poke_def view_col_def fun_eq_iff list_update_same_conv)

lemma sum_list_delta:
  assumes "r < n"
  shows "sum_list (map (\<lambda>i. if i = r then a else (0::real)) [0..<n]) = a"
proof -
  have "sum_list (map (\<lambda>i. if i = r then a else (0::real)) [0..<n])
      = (\<Sum>i\<in>set [0..<n]. if i = r then a else 0)"
    by (rule interv_sum_list_conv_sum_set_nat)
  also have "\<dots> = a"
    using assms by simp
  finally show ?thesis .
qed

lemma autograd_grad_rowwise:
  assumes col: "\<sigma> l = view_col ts"
    and rowwise: "\<And>r x. r < length ts \<Longrightarrow> u (poke \<sigma> l r 0 x) = view_col (map f (ts[r := x]))"
    and deriv: "\<And>t. (f has_real_derivative f' t) (at t)"
  shows "autograd_grad u l (\<lambda>\<sigma>. ones_like (u \<sigma>)) \<sigma> = view_col (map f' ts)"
proof (cases "ts = []")
  case True
  then show ?thesis
    using col by (simp add: autograd_grad_def view_col_def)
next
  case False
  then have "0 < length ts" by simp
  from rowwise [OF this, of "ts ! 0"] poke_same [of \<sigma> l ts 0, OF col this]
  have u: "u \<sigma> = view_col (map f ts)"
    by simp
  have entry: "sum_list (map (\<lambda>i. sum_list (map (\<lambda>j.
        ones_like (u \<sigma>) ! i ! j * pderiv (\<lambda>x. u (poke \<sigma> l r 0 x) ! i ! j) (\<sigma> l ! r ! 0))
      [0..<length (u \<sigma> ! i)])) [0..<length (u \<sigma>)]) = f' (ts ! r)"
    if r: "r < length ts" for r
  proof -
    have inner: "sum_list (map (\<lambda>j.
        ones_like (u \<sigma>) ! i ! j * pderiv (\<lambda>x. u (poke \<sigma> l r 0 x) ! i ! j) (\<sigma> l ! r ! 0))
      [0..<length (u \<sigma> ! i)]) = (if i = r then f' (ts ! r) else 0)"
      if i: "i < length ts" for i
    proof -
      have fn: "(\<lambda>x. u (poke \<sigma> l r 0 x) ! i ! 0) = (\<lambda>x. f (ts[r := x] ! i))"
        using i by (simp add: rowwise [OF r] view_col_def)
      have "((\<lambda>x. f (ts[r := x] ! i)) has_real_derivative (if i = r then f' (ts ! r) else 0))
          (at (ts ! r))"
      proof (cases "i = r")
        case True
        then show ?thesis using r deriv [of "ts ! r"] by (simp add: nth_list_update)
      next
        case False
        then show ?thesis by (simp add: nth_list_update)
      qed
      then have "pderiv (\<lambda>x. f (ts[r := x] ! i)) (ts ! r) = (if i = r then f' (ts ! r) else 0)"
        by (rule pderiv_eq)
      then show ?thesis
        using i r by (simp add: u col fn view_col_def ones_like_def tmap_def)
    qed
    have len: "length (u \<sigma>) = length ts"
      by (simp add: u view_col_def)
    have "map (\<lambda>i. sum_list (map (\<lambda>j.
        ones_like (u \<sigma>) ! i ! j * pderiv (\<lambda>x. u (poke \<sigma> l r 0 x) ! i ! j) (\<sigma> l ! r ! 0))
      [0..<length (u \<sigma> ! i)])) [0..<length (u \<sigma>)]
      = map (\<lambda>i. if i = r then f' (ts ! r) else 0) [0..<length ts]"
      unfolding len by (rule map_cong [OF refl]) (simp add: inner)
    then show ?thesis
      by (simp only: sum_list_delta [OF r])
  qed
  have len: "length (\<sigma> l) = length ts"
    by (simp add: col view_col_def)
  have lrow: "[0..<length (\<sigma> l ! r)] = [0]" if "r < length ts" for r
    using that by (simp add: col view_col_def)
  have "autograd_grad u l (\<lambda>\<sigma>. ones_like (u \<sigma>)) \<sigma> = map (\<lambda>r. [f' (ts ! r)]) [0..<length ts]"
    unfolding autograd_grad_def len
    by (rule map_cong [OF refl]) (simp add: lrow entry)
  also have "\<dots> = view_col (map f' ts)"
    by (simp add: view_col_nth [of "map f' ts"])
  finally show ?thesis .
qed

lemma parameters_mem:
  "l \<in> set (parameters n) \<longleftrightarrow>
     l = FcsWeight \<or> l = FcsBias \<or> l = FceWeight \<or> l = FceBias
     \<or> (\<exists>i<n. l = FchWeight i \<or> l = FchBias i)"
  by (auto simp: parameters_def)

lemma forward_cong:
  assumes "\<And>l. l \<in> set (parameters n) \<Longrightarrow> \<sigma> l = \<sigma>' l"
  shows "forward n \<sigma> = forward n \<sigma>'"
proof
  fix X
  have blk: "fch_block \<sigma> i = fch_block \<sigma>' i" if "i < n" for i
    using that assms by (auto simp: fch_block_def parameters_mem fun_eq_iff)
  have "fold (fch_block \<sigma>) [0..<n] = fold (fch_block \<sigma>') [0..<n]"
    by (rule fold_cong [OF refl refl, THEN ext]) (simp add: blk)
  then have "fch n \<sigma> = fch n \<sigma>'"
    by (simp add: fch_def fun_eq_iff)
  moreover have "fcs \<sigma> = fcs \<sigma>'" "fce \<sigma> = fce \<sigma>'"
    using assms by (simp_all add: fcs_def fce_def parameters_mem fun_eq_iff)
  ultimately show "forward n \<sigma> X = forward n \<sigma>' X"
    by (simp add: forward_def)
qed

lemma poke_other: "l' \<noteq> l \<Longrightarrow> poke \<sigma> l r c x l' = \<sigma> l'"
  by (simp add: poke_def)

lemma forward_poke:
  assumes "l \<notin> set (parameters n)"
  shows "forward n (poke \<sigma> l r c x) = forward n \<sigma>"
  by (rule forward_cong) (use assms in \<open>auto simp: poke_def\<close>)

lemma NN_poke:
  assumes "l \<notin> set (parameters n)"
  shows "NN n (poke \<sigma> l r c x) = NN n \<sigma>"
  by (simp add: NN_def [abs_def] forward_poke [OF assms])

lemma scalar_output_poke:
  assumes "l \<notin> set (parameters n)"
  shows "scalar_output (poke \<sigma> l r c x) = scalar_output \<sigma>"
  using assms by (auto simp: scalar_output_def poke_def parameters_mem)

lemma poke_col:
  assumes "\<sigma> l = view_col ts" "r < length ts"
  shows "poke \<sigma> l r 0 x l = view_col (ts[r := x])"
  using assms by (simp add: poke_def view_col_def map_update)

lemma u_node_col:
  assumes "scalar_output \<sigma>" "\<sigma> l = view_col ts"
  shows "u_node n l \<sigma> = view_col (map (NN n \<sigma>) ts)"
  using assms by (simp add: u_node_def forward_scalar)

lemma dudt_node_col:
  assumes so: "scalar_output \<sigma>" and col: "\<sigma> l = view_col ts"
    and l: "l \<notin> set (parameters n)"
    and deriv: "\<And>t. (NN n \<sigma> has_real_derivative f' t) (at t)"
  shows "dudt_node n l \<sigma> = view_col (map f' ts)"
  unfolding dudt_node_def
proof (rule autograd_grad_rowwise [where f = "NN n \<sigma>" and ts = ts])
  show "\<sigma> l = view_col ts" by (rule col)
  show "(NN n \<sigma> has_real_derivative f' t) (at t)" for t by (rule deriv)
  fix r x assume r: "r < length ts"
  show "u_node n l (poke \<sigma> l r 0 x) = view_col (map (NN n \<sigma>) (ts[r := x]))"
    using u_node_col [of "poke \<sigma> l r 0 x" l "ts[r := x]" n]
    by (simp add: scalar_output_poke [OF l] so poke_col [of \<sigma> l ts r x, OF col r] NN_poke [OF l])
qed

lemma d2udt2_node_col:
  assumes so: "scalar_output \<sigma>" and col: "\<sigma> l = view_col ts"
    and l: "l \<notin> set (parameters n)"
    and deriv: "\<And>t. (NN n \<sigma> has_real_derivative f' t) (at t)"
    and deriv2: "\<And>t. (f' has_real_derivative f'' t) (at t)"
  shows "d2udt2_node n l \<sigma> = view_col (map f'' ts)"
  unfolding d2udt2_node_def
proof (rule autograd_grad_rowwise [where f = f' and ts = ts])
  show "\<sigma> l = view_col ts" by (rule col)
  show "(f' has_real_derivative f'' t) (at t)" for t by (rule deriv2)
  fix r x assume r: "r < length ts"
  show "dudt_node n l (poke \<sigma> l r 0 x) = view_col (map f' (ts[r := x]))"
    by (rule dudt_node_col)
       (simp_all add: scalar_output_poke [OF l] so poke_col [of \<sigma> l ts r x, OF col r] NN_poke [OF l] l deriv)
qed

subsection \<open>The values of the losses\<close>

lemma concat_view_col: "concat (view_col xs) = xs"
  by (induction xs) (simp_all add: view_col_def)

lemma tmap_view_col: "tmap f (view_col xs) = view_col (map f xs)"
  by (simp add: tmap_def view_col_def)

lemma numel_view_col: "numel (view_col xs) = length xs"
  by (simp add: numel_def concat_view_col)

lemma tmap2_view_col: "tmap2 f (view_col xs) (view_col ys) = view_col (map2 f xs ys)"
proof (induction xs arbitrary: ys)
  case Nil
  then show ?case by (simp add: tmap2_def view_col_def)
next
  case (Cons x xs)
  then show ?case by (cases ys) (simp_all add: tmap2_def view_col_def)
qed

lemma broadcast_cols:
  assumes "length xs = length ys"
  shows "broadcast f (view_col xs) (view_col ys) = view_col (map2 f xs ys)"
proof (cases "\<exists>a. xs = [a]")
  case True
  then obtain a where a: "xs = [a]" by blast
  with assms obtain b where b: "ys = [b]"
    by (cases ys) simp_all
  show ?thesis
    by (simp add: a b broadcast_def view_col_def tmap_def)
next
  case False
  then have xs: "\<And>P Q. (case xs of [] \<Rightarrow> P | [a] \<Rightarrow> Q a | a # b # list \<Rightarrow> P) = P"
    by (cases xs rule: list.exhaust; simp split: list.splits)
  from False assms have "\<not> (\<exists>b. ys = [b])"
    by (cases xs; cases ys; auto)
  then have ys: "\<And>P Q. (case ys of [] \<Rightarrow> P | [a] \<Rightarrow> Q a | a # b # list \<Rightarrow> P) = P"
    by (cases ys rule: list.exhaust; simp split: list.splits)
  show ?thesis
    by (simp add: broadcast_def concat_view_col xs ys tmap2_view_col)
qed

lemma broadcast_single: "broadcast f [[a]] B = tmap (f a) B"
  by (simp add: broadcast_def)

lemma squeeze_single: "squeeze [[x]] = [[x]]"
  by (simp add: squeeze_def)

lemma mean_view_col: "mean (view_col xs) = [[sum_list xs / real (length xs)]]"
  by (simp add: mean_def concat_view_col numel_view_col)

lemma TPhysics_not_parameter: "TPhysics \<notin> set (parameters n)"
  and TBoundary_not_parameter: "TBoundary \<notin> set (parameters n)"
  and Mu_not_parameter: "Mu \<notin> set (parameters n)"
  by (simp_all add: parameters_mem)

lemma physics_residual_Number:
  assumes so: "scalar_output \<sigma>" and col: "\<sigma> TPhysics = view_col ts"
    and deriv: "\<And>t. (NN n \<sigma> has_real_derivative f' t) (at t)"
    and deriv2: "\<And>t. (f' has_real_derivative f'' t) (at t)"
  shows "physics_residual n (Number m) k \<sigma>
    = view_col (map (\<lambda>t. 1 * f'' t + m * f' t + k * NN n \<sigma> t) ts)"
proof -
  have u: "u_node n TPhysics \<sigma> = view_col (map (NN n \<sigma>) ts)"
    by (rule u_node_col [OF so col])
  have du: "dudt_node n TPhysics \<sigma> = view_col (map f' ts)"
    by (rule dudt_node_col [OF so col TPhysics_not_parameter deriv])
  have d2u: "d2udt2_node n TPhysics \<sigma> = view_col (map f'' ts)"
    by (rule d2udt2_node_col [OF so col TPhysics_not_parameter deriv deriv2])
  show ?thesis
    by (simp add: physics_residual_def u du d2u times_def tmap_view_col broadcast_cols
          map2_same)
qed

lemma physics_residual_Parameter:
  assumes so: "scalar_output \<sigma>" and col: "\<sigma> TPhysics = view_col ts"
    and mu: "\<sigma> Mu = [[m]]"
    and deriv: "\<And>t. (NN n \<sigma> has_real_derivative f' t) (at t)"
    and deriv2: "\<And>t. (f' has_real_derivative f'' t) (at t)"
  shows "physics_residual n (Parameter Mu) k \<sigma>
    = view_col (map (\<lambda>t. 1 * f'' t + m * f' t + k * NN n \<sigma> t) ts)"
proof -
  have u: "u_node n TPhysics \<sigma> = view_col (map (NN n \<sigma>) ts)"
    by (rule u_node_col [OF so col])
  have du: "dudt_node n TPhysics \<sigma> = view_col (map f' ts)"
    by (rule dudt_node_col [OF so col TPhysics_not_parameter deriv])
  have d2u: "d2udt2_node n TPhysics \<sigma> = view_col (map f'' ts)"
    by (rule d2udt2_node_col [OF so col TPhysics_not_parameter deriv deriv2])
  show ?thesis
    by (simp add: physics_residual_def u du d2u times_def mu broadcast_single tmap_view_col
          broadcast_cols map2_same)
qed

lemma task1_loss_value:
  assumes so: "scalar_output \<sigma>"
    and tb: "\<sigma> TBoundary = view_col [t0]"
    and col: "\<sigma> TPhysics = view_col ts"
    and deriv: "\<And>t. (NN n \<sigma> has_real_derivative f' t) (at t)"
    and deriv2: "\<And>t. (f' has_real_derivative f'' t) (at t)"
  shows "task1_loss n (Number m) k \<sigma> =
    [[(NN n \<sigma> t0 - 1)\<^sup>2 + 1 / 10 * (f' t0 - 0)\<^sup>2
      + 1 / 10 ^ 4 * (sum_list (map (\<lambda>t. (1 * f'' t + m * f' t + k * NN n \<sigma> t)\<^sup>2) ts)
          / real (length ts))]]"
proof -
  have u: "u_node n TBoundary \<sigma> = [[NN n \<sigma> t0]]"
    using u_node_col [OF so tb, of n] by (simp add: view_col_def)
  have du: "dudt_node n TBoundary \<sigma> = [[f' t0]]"
    using dudt_node_col [OF so tb TBoundary_not_parameter deriv] by (simp add: view_col_def)
  have res: "mean (tmap (\<lambda>x. x\<^sup>2) (physics_residual n (Number m) k \<sigma>))
    = [[sum_list (map (\<lambda>t. (1 * f'' t + m * f' t + k * NN n \<sigma> t)\<^sup>2) ts) / real (length ts)]]"
    by (simp only: physics_residual_Number [OF so col deriv deriv2] tmap_view_col
          mean_view_col map_map comp_def length_map)
  show ?thesis
    unfolding task1_loss_def Let_def u du res squeeze_single
    by (simp add: tmap_def broadcast_single)
qed

lemma task2_loss_value:
  assumes so: "scalar_output \<sigma>"
    and col: "\<sigma> TPhysics = view_col ts"
    and mu: "\<sigma> Mu = [[m]]"
    and len: "length xs = length ys"
    and deriv: "\<And>t. (NN n \<sigma> has_real_derivative f' t) (at t)"
    and deriv2: "\<And>t. (f' has_real_derivative f'' t) (at t)"
  shows "task2_loss n (Parameter Mu) k (view_col xs) (view_col ys) \<sigma> =
    [[sum_list (map (\<lambda>t. (1 * f'' t + m * f' t + k * NN n \<sigma> t)\<^sup>2) ts) / real (length ts)
      + 10 ^ 4 * (sum_list (map2 (\<lambda>x y. (NN n \<sigma> x - y)\<^sup>2) xs ys) / real (length xs))]]"
proof -
  have res: "mean (tmap (\<lambda>x. x\<^sup>2) (physics_residual n (Parameter Mu) k \<sigma>))
    = [[sum_list (map (\<lambda>t. (1 * f'' t + m * f' t + k * NN n \<sigma> t)\<^sup>2) ts) / real (length ts)]]"
    by (simp only: physics_residual_Parameter [OF so col mu deriv deriv2] tmap_view_col
          mean_view_col map_map comp_def length_map)
  have m2: "map (\<lambda>x. x\<^sup>2) (map2 (-) (map (NN n \<sigma>) xs) ys)
      = map2 (\<lambda>x y. (NN n \<sigma> x - y)\<^sup>2) xs ys"
    by (simp add: zip_map1 comp_def case_prod_beta)
  have bc: "broadcast (-) (forward n \<sigma> (view_col xs)) (view_col ys)
      = view_col (map2 (-) (map (NN n \<sigma>) xs) ys)"
    using len by (simp add: forward_scalar [OF so] broadcast_cols)
  have data: "mean (tmap (\<lambda>x. x\<^sup>2) (broadcast (-) (forward n \<sigma> (view_col xs)) (view_col ys)))
    = [[sum_list (map2 (\<lambda>x y. (NN n \<sigma> x - y)\<^sup>2) xs ys) / real (length xs)]]"
    using len
    by (simp only: bc tmap_view_col mean_view_col m2 length_map length_zip min.idem)
  show ?thesis
    unfolding task2_loss_def Let_def res data
    by (simp add: tmap_def broadcast_single)
qed

subsection \<open>Shapes under the optimiser step\<close>

lemma map_length_imap: "map length (imap f M) = map length M"
  unfolding imap_def by (rule nth_equalityI) simp_all

lemma length_imap: "length (imap f M) = length M"
  by (simp add: imap_def)

lemma numel_imap: "numel (imap f M) = numel M"
  by (simp add: numel_def length_concat map_length_imap)

lemma step_val_shape:
  "length (val (step E s) l) = length (val s l) \<and> numel (val (step E s) l) = numel (val s l)"
  by (simp add: step_def Adam_tensor_def length_imap numel_imap split: option.splits)

lemma scalar_output_step: "scalar_output (val (step E s)) = scalar_output (val s)"
  by (simp add: scalar_output_def step_val_shape)

lemma step_val_other: "l \<notin> set (optimiser_params s) \<Longrightarrow> val (step E s) l = val s l"
  by (simp add: step_def)

subsection \<open>Loops\<close>

lemma for_loop_append:
  "for_loop body (xs @ ys) s =
     (case for_loop body xs s of Inl e \<Rightarrow> Inl e | Inr s' \<Rightarrow> for_loop body ys s')"
  by (induction xs arbitrary: s) (simp_all split: sum.splits)

lemma for_loop_invariant:
  assumes step: "\<And>i s. I s \<Longrightarrow> \<exists>s'. body i s = Inr s' \<and> I s' \<and> f s' = Suc (f s)"
    and init: "I s"
  shows "\<exists>s'. for_loop body is s = Inr s' \<and> I s' \<and> f s' = f s + length is"
  using init
proof (induction "is" arbitrary: s)
  case Nil
  then show ?case by simp
next
  case (Cons i "is")
  from step [OF Cons.prems, of i] obtain s1 where
    s1: "body i s = Inr s1" "I s1" "f s1 = Suc (f s)"
    by blast
  from Cons.IH [OF s1(2)] obtain s' where
    "for_loop body is s1 = Inr s'" "I s'" "f s' = f s1 + length is"
    by blast
  with s1 show ?case by simp
qed

lemma for_loop_split:
  assumes "n < m"
  shows "for_loop body [0..<m] s =
     (case for_loop body [0..<n] s of Inl e \<Rightarrow> Inl e | Inr s' \<Rightarrow> for_loop body (n # [Suc n..<m]) s')"
proof -
  have "[0..<m] = [0..<n] @ (n # [Suc n..<m])"
  proof -
    from assms obtain k where k: "m = n + k"
      using less_imp_add_positive by blast
    have "[0..<n + k] = [0..<n] @ [n..<n + k]"
      by (rule upt_add_eq_append) simp
    moreover have "[n..<m] = n # [Suc n..<m]"
      using assms by (rule upt_conv_Cons)
    ultimately show ?thesis
      by (simp add: k)
  qed
  then show ?thesis
    by (simp only: for_loop_append)
qed

subsection \<open>Building the network\<close>

lemma length_draws: "length (fst (draws f n g)) = n"
  by (induction n arbitrary: g) (simp_all add: case_prod_beta)

lemma length_draw_rows: "length (fst (draw_rows f r c g)) = r"
  by (induction r arbitrary: g) (simp_all add: case_prod_beta)

lemma numel_draw_rows: "numel (fst (draw_rows f r c g)) = r * c"
proof (induction r arbitrary: g)
  case 0
  then show ?case by (simp add: numel_def)
next
  case (Suc r)
  have "length (fst (draws f c g)) = c" by (rule length_draws)
  moreover have "numel (fst (draw_rows f r c (snd (draws f c g)))) = r * c" by (rule Suc.IH)
  ultimately show ?case
    by (simp add: numel_def case_prod_beta)
qed

lemma only_net_refl: "only_net s s"
  unfolding only_net_def
  by (rule exI [of _ "rng s"], rule exI [of _ "val s"], rule exI [of _ "grad s"],
      rule exI [of _ "pinn s"]) simp

lemma only_net_trans: "only_net a b \<Longrightarrow> only_net b c \<Longrightarrow> only_net a c"
  unfolding only_net_def by (elim exE) (simp, blast)

lemma only_net_new_Linear: "only_net s (new_Linear E i o' wl bl s)"
  unfolding only_net_def new_Linear_def
  by (simp split: prod.splits) (metis (no_types) notebook.surjective notebook.update_convs(1,2,3,4))

lemma only_net_fold:
  "only_net s (fold (\<lambda>i. new_Linear E a b (W i) (B i)) is s)"
proof (induction "is" arbitrary: s)
  case Nil
  then show ?case by (simp add: only_net_refl)
next
  case (Cons i "is")
  show ?case
    using only_net_trans [OF only_net_new_Linear Cons.IH] by simp
qed

lemma only_net_FCN: "only_net s (FCN E ni no nh nl s)"
proof -
  define s1 where "s1 = new_Linear E ni nh FcsWeight FcsBias s"
  define s2 where
    "s2 = fold (\<lambda>i. new_Linear E nh nh (FchWeight i) (FchBias i)) [0..<nl - 1] s1"
  define s3 where "s3 = new_Linear E nh no FceWeight FceBias s2"
  have "only_net s s1"
    unfolding s1_def by (rule only_net_new_Linear)
  moreover have "only_net s1 s2"
    unfolding s2_def by (rule only_net_fold)
  moreover have "only_net s2 s3"
    unfolding s3_def by (rule only_net_new_Linear)
  ultimately have "only_net s s3"
    by (blast intro: only_net_trans)
  moreover have "FCN E ni no nh nl s = s3\<lparr>pinn := nl - 1\<rparr>"
    by (simp add: FCN_def s1_def s2_def s3_def)
  ultimately show ?thesis
    unfolding only_net_def by (elim exE) (simp, blast)
qed

lemma only_net_fields:
  assumes "only_net s s'"
  shows "optimiser_params s' = optimiser_params s" "optimiser_state s' = optimiser_state s"
    "optimiser_steps s' = optimiser_steps s" "d_var s' = d_var s" "w0_var s' = w0_var s"
    "mu_var s' = mu_var s" "k_var s' = k_var s" "t_test s' = t_test s"
    "u_exact s' = u_exact s" "t_obs s' = t_obs s" "u_obs s' = u_obs s"
    "i_var s' = i_var s" "loss_var s' = loss_var s" "mus s' = mus s"
  using assms unfolding only_net_def by auto

lemma val_new_Linear:
  "val (new_Linear E i o' wl bl s) =
     (val s)(wl := fst (draw_rows (uniform E (1 / sqrt (real i))) o' i (rng s)),
             bl := fst (draw_rows (uniform E (1 / sqrt (real i))) 1 o'
                      (snd (draw_rows (uniform E (1 / sqrt (real i))) o' i (rng s)))))"
  by (simp add: new_Linear_def case_prod_beta)

lemma pinn_FCN: "pinn (FCN E ni no nh nl s) = nl - 1"
  by (simp add: FCN_def)

lemma scalar_output_FCN: "scalar_output (val (FCN E ni 1 nh nl s))"
  by (simp add: FCN_def val_new_Linear scalar_output_def length_draw_rows numel_draw_rows
        del: One_nat_def draw_rows.simps draws.simps)

subsection \<open>The set-up of Task 1\<close>

lemma exact_solution_returns: "d < w0 \<Longrightarrow> \<exists>ue. exact_solution d w0 t = Inr ue"
  by (simp add: exact_solution_def)

lemma exact_solution_raises: "\<not> d < w0 \<Longrightarrow> exact_solution d w0 t = Inl AssertionError"
  by (simp add: exact_solution_def)

lemma task1_setup_ok:
  assumes "d < w0"
  shows "\<exists>s. task1_setup E d w0 s0 = Inr s \<and> task1_inv d w0 s \<and> optimiser_steps s = 0
    \<and> t_obs s = t_obs s0 \<and> u_obs s = u_obs s0 \<and> mus s = mus s0
    \<and> i_var s = i_var s0 \<and> loss_var s = loss_var s0"
proof -
  define s1 where "s1 = FCN E 1 1 32 3 (s0\<lparr>rng := manual_seed E 123\<rparr>)"
  have net: "only_net (s0\<lparr>rng := manual_seed E 123\<rparr>) s1"
    unfolding s1_def by (rule only_net_FCN)
  have so: "scalar_output (val s1)" and p: "pinn s1 = 2"
    unfolding s1_def by (simp_all add: scalar_output_FCN pinn_FCN del: One_nat_def)
  from exact_solution_returns [OF assms] obtain ue where
    ue: "exact_solution d w0 (view_col (linspace 0 1 300)) = Inr ue"
    by blast
  have so': "scalar_output ((val s1)(TBoundary := a, TPhysics := b))" for a b
    using so by (simp add: scalar_output_def)
  show ?thesis
    using only_net_fields [OF net]
    by (simp add: task1_setup_def Let_def s1_def [symmetric] new_leaf_def ue task1_inv_def
          so' p del: One_nat_def)
qed

lemma task1_setup_raises:
  assumes "\<not> d < w0"
  shows "task1_setup E d w0 s0 = Inl (Raised AssertionError)"
  by (simp add: task1_setup_def Let_def new_leaf_def exact_solution_raises [OF assms])

subsection \<open>One iteration\<close>

lemma trained_fields:
  "rng (trained E loss leaves i s) = rng s"
  "pinn (trained E loss leaves i s) = pinn s"
  "optimiser_params (trained E loss leaves i s) = optimiser_params s"
  "optimiser_steps (trained E loss leaves i s) = Suc (optimiser_steps s)"
  "d_var (trained E loss leaves i s) = d_var s"
  "w0_var (trained E loss leaves i s) = w0_var s"
  "mu_var (trained E loss leaves i s) = mu_var s"
  "k_var (trained E loss leaves i s) = k_var s"
  "t_test (trained E loss leaves i s) = t_test s"
  "u_exact (trained E loss leaves i s) = u_exact s"
  "t_obs (trained E loss leaves i s) = t_obs s"
  "u_obs (trained E loss leaves i s) = u_obs s"
  "i_var (trained E loss leaves i s) = Some i"
  "loss_var (trained E loss leaves i s) = Some (loss (val s))"
  "mus (trained E loss leaves i s) = mus s"
  by (simp_all add: trained_def step_def accumulate_grads_def zero_grad_def)

lemma trained_grad:
  "grad (trained E loss leaves i s) l =
     (if l \<in> set leaves
      then Some (accumulate (if l \<in> set (optimiser_params s) then None else grad s l)
                  (gradient loss l (val s)))
      else if l \<in> set (optimiser_params s) then None else grad s l)"
  by (simp add: trained_def step_def accumulate_grads_def zero_grad_def)

lemma trained_val_other:
  "l \<notin> set (optimiser_params s) \<Longrightarrow> val (trained E loss leaves i s) l = val s l"
  by (simp add: trained_def step_def accumulate_grads_def zero_grad_def)

lemma trained_val_param:
  assumes "l \<in> set (optimiser_params s)" "l \<in> set leaves"
  shows "val (trained E loss leaves i s) l =
    Adam_tensor E (optimiser_state s) l (val s l) (gradient loss l (val s))"
  using assms
  by (simp add: trained_def step_def accumulate_grads_def zero_grad_def accumulate_def)

lemma trained_state:
  "optimiser_state (trained E loss leaves i s) =
     Adam_next E (optimiser_state s)
       (map (\<lambda>l. (l, val s l, grad (trained E loss leaves i s) l)) (optimiser_params s))"
  by (simp add: trained_def step_def accumulate_grads_def zero_grad_def)

lemma trained_val_shape:
  "length (val (trained E loss leaves i s) l) = length (val s l)
   \<and> numel (val (trained E loss leaves i s) l) = numel (val s l)"
  using step_val_shape [of E "accumulate_grads loss leaves
       ((zero_grad (s\<lparr>i_var := Some i\<rparr>))\<lparr>loss_var := Some (loss (val s))\<rparr>)" l]
  by (simp add: trained_def accumulate_grads_def zero_grad_def)

lemma scalar_output_trained:
  "scalar_output (val (trained E loss leaves i s)) = scalar_output (val s)"
  by (simp add: scalar_output_def trained_val_shape)

lemma numel_single: "numel [[x]] = 1"
  by (simp add: numel_def)

lemma task1_loss_scalar:
  assumes "task1_inv d w0 s"
  shows "numel (task1_loss 2 (Number (2 * d)) (w0\<^sup>2) (val s)) = 1"
proof -
  from assms have so: "scalar_output (val s)"
    and tb: "val s TBoundary = view_col [0]"
    and col: "val s TPhysics = view_col (linspace 0 1 30)"
    by (simp_all add: task1_inv_def)
  from NN_twice_differentiable [OF so, of 2] obtain f' f'' where
    d1: "\<And>t. (NN 2 (val s) has_real_derivative f' t) (at t)" and
    d2: "\<And>t. (f' has_real_derivative f'' t) (at t)"
    unfolding twice_differentiable_def by blast
  show ?thesis
    by (simp only: task1_loss_value [OF so tb col d1 d2] numel_single)
qed

lemma task1_step_trained:
  assumes inv: "task1_inv d w0 s"
  shows "task1_step E i s =
    Inr (trained E (task1_loss 2 (Number (2 * d)) (w0\<^sup>2))
           (parameters 2 @ [TBoundary, TPhysics]) i s)"
proof -
  from inv have f: "pinn s = 2" "mu_var s = Number (2 * d)" "k_var s = w0\<^sup>2"
    by (simp_all add: task1_inv_def)
  have z: "pinn (zero_grad (s\<lparr>i_var := Some i\<rparr>)) = 2"
    "mu_var (zero_grad (s\<lparr>i_var := Some i\<rparr>)) = Number (2 * d)"
    "k_var (zero_grad (s\<lparr>i_var := Some i\<rparr>)) = w0\<^sup>2"
    "val (zero_grad (s\<lparr>i_var := Some i\<rparr>)) = val s"
    by (simp_all add: zero_grad_def f)
  show ?thesis
    unfolding task1_step_def Let_def z backward_def trained_def
    using task1_loss_scalar [OF inv] by (simp add: z)
qed

lemma task1_inv_trained:
  assumes inv: "task1_inv d w0 s"
  shows "task1_inv d w0 (trained E loss leaves i s)"
  using inv
  by (simp add: task1_inv_def scalar_output_trained trained_fields trained_val_other
        TBoundary_not_parameter TPhysics_not_parameter)

lemma task1_step_ok:
  assumes inv: "task1_inv d w0 s"
  shows "\<exists>s'. task1_step E i s = Inr s' \<and> task1_inv d w0 s'
    \<and> optimiser_steps s' = Suc (optimiser_steps s)"
  by (simp add: task1_step_trained [OF inv] task1_inv_trained [OF inv] trained_fields)

subsection \<open>The observations and the set-up of Task 2\<close>

lemma randn_like_col:
  "\<exists>zs. fst (randn_like E (view_col xs) g) = view_col zs \<and> length zs = length xs"
proof (induction xs arbitrary: g)
  case Nil
  then show ?case by (simp add: view_col_def)
next
  case (Cons x xs)
  obtain z g' where z: "randn E g = (z, g')"
    by (cases "randn E g")
  from Cons.IH [of g'] obtain zs where
    zs: "fst (randn_like E (view_col xs) g') = view_col zs" "length zs = length xs"
    by blast
  have "fst (randn_like E (view_col (x # xs)) g) = view_col (z # zs)"
    using zs(1) by (simp add: view_col_def z case_prod_beta)
  with zs(2) show ?case
    by (metis length_Cons)
qed

lemma observe_ok:
  assumes "\<bar>d\<bar> < w0"
  shows "\<exists>s xs ys. observe E d w0 s0 = Inr s \<and> observed s
    \<and> t_obs s = view_col xs \<and> u_obs s = Some (view_col ys)
    \<and> length xs = 40 \<and> length ys = 40"
proof -
  define xs where "xs = fst (draws (rand E) 40 (manual_seed E 123))"
  define g1 where "g1 = snd (draws (rand E) 40 (manual_seed E 123))"
  from assms have lt: "d < w0" by simp
  from exact_solution_underdamped [OF assms] obtain u where
    u: "\<And>t. exact_solution d w0 t = Inr (Some (tmap u t))"
    by blast
  from randn_like_col [of E xs g1] obtain zs where
    zs: "fst (randn_like E (view_col xs) g1) = view_col zs" "length zs = length xs"
    by blast
  define ys where "ys = map2 (+) (map u xs) (map ((*) (4 / 100)) zs)"
  define s' where "s' = s0\<lparr>rng := snd (randn_like E (view_col xs) g1),
      d_var := d, w0_var := w0, t_test := view_col (linspace 0 1 300),
      u_exact := Some (tmap u (view_col (linspace 0 1 300))),
      t_obs := view_col xs, u_obs := Some (view_col ys)\<rparr>"
  have run: "observe E d w0 s0 = Inr s'"
    using zs
    by (simp add: observe_def Let_def case_prod_beta xs_def [symmetric] g1_def [symmetric] u
          tmap_view_col broadcast_cols s'_def ys_def)
  have len: "length xs = 40" "length ys = 40"
    using zs(2) by (simp_all add: ys_def xs_def length_draws)
  then have "observed s'"
    unfolding observed_def s'_def
    by (intro exI [of _ xs] exI [of _ ys]) simp
  moreover have "t_obs s' = view_col xs" "u_obs s' = Some (view_col ys)"
    by (simp_all add: s'_def)
  ultimately show ?thesis
    using run len by blast
qed

lemma observe_raises:
  assumes "\<not> d < w0"
  shows "observe E d w0 s0 = Inl (Raised AssertionError)"
  by (simp add: observe_def Let_def case_prod_beta exact_solution_raises [OF assms])

lemma scalar_output_upd:
  assumes "l \<noteq> FceWeight" "l \<noteq> FceBias"
  shows "scalar_output (\<sigma>(l := v)) = scalar_output \<sigma>"
  using assms by (simp add: scalar_output_def)

lemma task2_setup_ok:
  assumes "d < w0" "observed s0"
  shows "\<exists>s. task2_setup E d w0 s0 = Inr s \<and> task2_inv d w0 s \<and> optimiser_steps s = 0
    \<and> mus s = [] \<and> val s Mu = [[0]]
    \<and> t_obs s = t_obs s0 \<and> u_obs s = u_obs s0"
proof -
  define s1 where "s1 = FCN E 1 1 32 3 (s0\<lparr>rng := manual_seed E 123\<rparr>)"
  have net: "only_net (s0\<lparr>rng := manual_seed E 123\<rparr>) s1"
    unfolding s1_def by (rule only_net_FCN)
  have so: "scalar_output (val s1)" and p: "pinn s1 = 2"
    unfolding s1_def by (simp_all add: scalar_output_FCN pinn_FCN del: One_nat_def)
  from exact_solution_returns [OF assms(1)] obtain ue where
    ue: "exact_solution d w0 (view_col (linspace 0 1 300)) = Inr ue"
    by blast
  have so': "scalar_output ((val s1)(TPhysics := a, Mu := b))" for a b
    using so by (simp add: scalar_output_def)
  have obs: "observed (s1\<lparr>rng := g\<rparr>)" for g
    using assms(2) only_net_fields(10,11) [OF net] by (simp add: observed_def)
  show ?thesis
    using only_net_fields [OF net] assms(2)
    by (simp add: task2_setup_def Let_def s1_def [symmetric] new_leaf_def ue task2_inv_def
          so' p observed_def del: One_nat_def)
qed

lemma task2_setup_raises:
  assumes "\<not> d < w0"
  shows "task2_setup E d w0 s0 = Inl (Raised AssertionError)"
  by (simp add: task2_setup_def Let_def new_leaf_def exact_solution_raises [OF assms])

lemma scalar_output_Mu: "scalar_output (\<sigma>(Mu := v)) = scalar_output \<sigma>"
  by (simp add: scalar_output_def)

lemma task2_loss_scalar:
  assumes "task2_inv d w0 s" "t_obs s = view_col xs" "u_obs s = Some (view_col ys)"
    "length xs = length ys"
  shows "numel (task2_loss 2 (Parameter Mu) (w0\<^sup>2) (view_col xs) (view_col ys) (val s)) = 1"
proof -
  from assms obtain m where so: "scalar_output (val s)"
    and mu: "val s Mu = [[m]]"
    and col: "val s TPhysics = view_col (linspace 0 1 30)"
    by (auto simp: task2_inv_def)
  from NN_twice_differentiable [OF so, of 2] obtain f' f'' where
    d1: "\<And>t. (NN 2 (val s) has_real_derivative f' t) (at t)" and
    d2: "\<And>t. (f' has_real_derivative f'' t) (at t)"
    unfolding twice_differentiable_def by blast
  show ?thesis
    by (simp only: task2_loss_value [OF so col mu assms(4) d1 d2] numel_single)
qed

lemma imap_single: "imap f [[m]] = [[f 0 0 m]]"
  by (simp add: imap_def)

lemma trained_Mu_single:
  assumes "val s Mu = [[m]]"
  shows "\<exists>m'. val (trained E loss leaves i s) Mu = [[m']]"
  using assms
  by (simp add: trained_def step_def accumulate_grads_def zero_grad_def Adam_tensor_def
        imap_single split: option.splits)

lemma zero_grad_fields:
  "val (zero_grad s) = val s" "pinn (zero_grad s) = pinn s"
  "mu_var (zero_grad s) = mu_var s" "k_var (zero_grad s) = k_var s"
  "t_obs (zero_grad s) = t_obs s" "u_obs (zero_grad s) = u_obs s"
  "mus (zero_grad s) = mus s"
  by (simp_all add: zero_grad_def)

lemma accumulate_grads_fields:
  "val (accumulate_grads loss ls s) = val s"
  "mu_var (accumulate_grads loss ls s) = mu_var s"
  "mus (accumulate_grads loss ls s) = mus s"
  by (simp_all add: accumulate_grads_def)

lemma task2_step_trained:
  assumes inv: "task2_inv d w0 s"
    and obs: "t_obs s = view_col xs" "u_obs s = Some (view_col ys)" "length xs = length ys"
  shows "task2_step E i s =
    Inr ((trained E (task2_loss 2 (Parameter Mu) (w0\<^sup>2) (view_col xs) (view_col ys))
            (parameters 2 @ [Mu, TPhysics]) i s)
         \<lparr>mus := mus s @ [the_mu (trained E
              (task2_loss 2 (Parameter Mu) (w0\<^sup>2) (view_col xs) (view_col ys))
              (parameters 2 @ [Mu, TPhysics]) i s)]\<rparr>)"
proof -
  define loss where "loss = task2_loss 2 (Parameter Mu) (w0\<^sup>2) (view_col xs) (view_col ys)"
  define s' where "s' = trained E loss (parameters 2 @ [Mu, TPhysics]) i s"
  from inv have f: "pinn s = 2" "mu_var s = Parameter Mu" "k_var s = w0\<^sup>2"
    by (simp_all add: task2_inv_def)
  from inv obtain m0 where "val s Mu = [[m0]]"
    by (auto simp: task2_inv_def)
  from trained_Mu_single [OF this] obtain m where m: "val s' Mu = [[m]]"
    unfolding s'_def by blast
  have sc: "numel (loss (val s)) = 1"
    unfolding loss_def by (rule task2_loss_scalar [OF inv obs])
  define a where "a = accumulate_grads loss (parameters 2 @ [Mu, TPhysics])
    ((zero_grad (s\<lparr>i_var := Some i\<rparr>))\<lparr>loss_var := Some (loss (val s))\<rparr>)"
  have s': "s' = step E a"
    by (simp add: s'_def trained_def a_def)
  have bw: "backward loss (parameters 2 @ [Mu, TPhysics])
      ((zero_grad (s\<lparr>i_var := Some i\<rparr>))\<lparr>loss_var := Some (loss (val s))\<rparr>) = Inr a"
    using sc by (simp add: backward_def a_def zero_grad_fields)
  have fa: "mu_var a = Parameter Mu" "mus a = mus s"
    by (simp_all add: a_def accumulate_grads_fields zero_grad_fields f)
  have it: "mu_item (Parameter Mu) (val s') = Inr (the_mu s')"
    by (simp add: mu_item_def item_def the_mu_def m)
  show ?thesis
    unfolding task2_step_def Let_def obs option.case
    by (simp add: zero_grad_fields f obs loss_def [symmetric] bw fa s' [symmetric] it
          s'_def [symmetric])
qed

lemma task2_inv_trained:
  assumes inv: "task2_inv d w0 s"
  shows "task2_inv d w0 ((trained E loss leaves i s)\<lparr>mus := ms\<rparr>)"
proof -
  from inv obtain m0 where "val s Mu = [[m0]]"
    by (auto simp: task2_inv_def)
  from trained_Mu_single [OF this] obtain m where
    "val (trained E loss leaves i s) Mu = [[m]]"
    by blast
  with inv show ?thesis
    by (simp add: task2_inv_def observed_def scalar_output_trained trained_fields
          trained_val_other TPhysics_not_parameter)
qed

lemma task2_step_ok:
  assumes inv: "task2_inv d w0 s"
  shows "\<exists>s'. task2_step E i s = Inr s' \<and> task2_inv d w0 s'
    \<and> optimiser_steps s' = Suc (optimiser_steps s)
    \<and> length (mus s') = Suc (length (mus s))
    \<and> t_obs s' = t_obs s \<and> u_obs s' = u_obs s"
proof -
  from inv obtain xs ys where
    obs: "t_obs s = view_col xs" "u_obs s = Some (view_col ys)" "length xs = length ys"
    by (auto simp: task2_inv_def observed_def)
  show ?thesis
    by (simp add: task2_step_trained [OF inv obs] task2_inv_trained [OF inv] trained_fields)
qed

subsection \<open>What an iteration leaves as it is\<close>

lemma unchanged_refl: "unchanged s s"
  by (simp add: unchanged_def)

lemma unchanged_trans: "unchanged a b \<Longrightarrow> unchanged b c \<Longrightarrow> unchanged a c"
  by (simp add: unchanged_def)

lemma unchanged_trained:
  assumes "TBoundary \<notin> set (optimiser_params s)" "TPhysics \<notin> set (optimiser_params s)"
  shows "unchanged s (trained E loss leaves i s)"
    and "unchanged s ((trained E loss leaves i s)\<lparr>mus := ms\<rparr>)"
  using assms by (simp_all add: unchanged_def trained_fields trained_val_other)

lemma trained_frame:
  "l \<in> set (optimiser_params s) \<or> val (trained E loss leaves i s) l = val s l"
  by (cases "l \<in> set (optimiser_params s)") (simp_all add: trained_val_other)

lemma task1_step_unchanged:
  assumes inv: "task1_inv d w0 s"
  shows "\<exists>s'. task1_step E i s = Inr s' \<and> unchanged s s' \<and> val s' Mu = val s Mu
    \<and> mus s' = mus s \<and> (\<forall>l. l \<in> set (optimiser_params s) \<or> val s' l = val s l)"
proof -
  from inv have p: "optimiser_params s = parameters 2"
    by (simp add: task1_inv_def)
  define s' where "s' = trained E (task1_loss 2 (Number (2 * d)) (w0\<^sup>2))
    (parameters 2 @ [TBoundary, TPhysics]) i s"
  have 1: "task1_step E i s = Inr s'"
    unfolding s'_def by (rule task1_step_trained [OF inv])
  have 2: "unchanged s s'"
    unfolding s'_def
    by (rule unchanged_trained) (simp_all add: p TBoundary_not_parameter TPhysics_not_parameter)
  have 3: "val s' Mu = val s Mu" "mus s' = mus s"
    unfolding s'_def by (simp_all add: trained_fields trained_val_other p Mu_not_parameter)
  have 4: "\<forall>l. l \<in> set (optimiser_params s) \<or> val s' l = val s l"
    unfolding s'_def by (simp add: trained_frame)
  from 1 2 3 4 show ?thesis
    by blast
qed

lemma task2_step_unchanged:
  assumes inv: "task2_inv d w0 s"
  shows "\<exists>s'. task2_step E i s = Inr s' \<and> unchanged s s'
    \<and> (\<forall>l. l \<in> set (optimiser_params s) \<or> val s' l = val s l)"
proof -
  from inv obtain xs ys where
    obs: "t_obs s = view_col xs" "u_obs s = Some (view_col ys)" "length xs = length ys"
    by (auto simp: task2_inv_def observed_def)
  from inv have p: "optimiser_params s = parameters 2 @ [Mu]"
    by (simp add: task2_inv_def)
  define s1 where "s1 = trained E (task2_loss 2 (Parameter Mu) (w0\<^sup>2) (view_col xs) (view_col ys))
    (parameters 2 @ [Mu, TPhysics]) i s"
  define s' where "s' = s1\<lparr>mus := mus s @ [the_mu s1]\<rparr>"
  have 1: "task2_step E i s = Inr s'"
    unfolding s'_def s1_def by (rule task2_step_trained [OF inv obs])
  have 2: "unchanged s s'"
    unfolding s'_def s1_def
    by (rule unchanged_trained) (simp_all add: p TBoundary_not_parameter TPhysics_not_parameter)
  have 4: "\<forall>l. l \<in> set (optimiser_params s) \<or> val s' l = val s l"
    unfolding s'_def s1_def by (simp add: trained_frame)
  from 1 2 4 show ?thesis
    by blast
qed

subsection \<open>The runs\<close>

lemma task1_loop_ok:
  assumes "task1_inv d w0 s0"
  shows "\<exists>s. for_loop (task1_step E) is s0 = Inr s \<and> (task1_inv d w0 s \<and> unchanged s0 s)
    \<and> optimiser_steps s = optimiser_steps s0 + length is"
proof (rule for_loop_invariant)
  show "task1_inv d w0 s0 \<and> unchanged s0 s0"
    using assms by (simp add: unchanged_refl)
next
  fix i s assume I: "task1_inv d w0 s \<and> unchanged s0 s"
  then have inv: "task1_inv d w0 s" by simp
  from task1_step_ok [OF inv, of E i] task1_step_unchanged [OF inv, of E i] I
  show "\<exists>s'. task1_step E i s = Inr s' \<and> (task1_inv d w0 s' \<and> unchanged s0 s')
      \<and> optimiser_steps s' = Suc (optimiser_steps s)"
    by (auto intro: unchanged_trans)
qed

lemma task2_loop_ok:
  assumes "task2_inv d w0 s0"
  shows "\<exists>s. for_loop (task2_step E) is s0 = Inr s
    \<and> (task2_inv d w0 s \<and> unchanged s0 s \<and> length (mus s) = length (mus s0) + optimiser_steps s
          - optimiser_steps s0 \<and> optimiser_steps s0 \<le> optimiser_steps s)
    \<and> optimiser_steps s = optimiser_steps s0 + length is"
proof (rule for_loop_invariant)
  show "task2_inv d w0 s0 \<and> unchanged s0 s0
      \<and> length (mus s0) = length (mus s0) + optimiser_steps s0 - optimiser_steps s0
      \<and> optimiser_steps s0 \<le> optimiser_steps s0"
    using assms by (simp add: unchanged_refl)
next
  fix i s assume I: "task2_inv d w0 s \<and> unchanged s0 s
      \<and> length (mus s) = length (mus s0) + optimiser_steps s - optimiser_steps s0
      \<and> optimiser_steps s0 \<le> optimiser_steps s"
  then have inv: "task2_inv d w0 s" by simp
  from task2_step_ok [OF inv, of E i] task2_step_unchanged [OF inv, of E i] I
  show "\<exists>s'. task2_step E i s = Inr s' \<and> (task2_inv d w0 s' \<and> unchanged s0 s'
      \<and> length (mus s') = length (mus s0) + optimiser_steps s' - optimiser_steps s0
      \<and> optimiser_steps s0 \<le> optimiser_steps s')
      \<and> optimiser_steps s' = Suc (optimiser_steps s)"
    by (auto intro: unchanged_trans)
qed

lemma task1_run_ok:
  assumes "d < w0"
  shows "\<exists>s0 s. task1_setup E d w0 a = Inr s0 \<and> task1_inv d w0 s0
    \<and> task1_run E d w0 n a = Inr s \<and> for_loop (task1_step E) [0..<n] s0 = Inr s
    \<and> task1_inv d w0 s \<and> unchanged s0 s \<and> optimiser_steps s = n"
proof -
  from task1_setup_ok [OF assms, of E a] obtain s0 where
    s0: "task1_setup E d w0 a = Inr s0" "task1_inv d w0 s0" "optimiser_steps s0 = 0"
    by blast
  from task1_loop_ok [OF s0(2), of E "[0..<n]"] obtain s where
    "for_loop (task1_step E) [0..<n] s0 = Inr s" "task1_inv d w0 s" "unchanged s0 s"
    "optimiser_steps s = optimiser_steps s0 + length [0..<n]"
    by blast
  with s0 show ?thesis
    by (simp add: task1_run_def)
qed

lemma task2_run_ok:
  assumes "\<bar>d\<bar> < w0"
  shows "\<exists>b s0 s xs ys. observe E d w0 a = Inr b \<and> observed b
    \<and> t_obs b = view_col xs \<and> u_obs b = Some (view_col ys)
    \<and> length xs = 40 \<and> length ys = 40
    \<and> task2_setup E d w0 b = Inr s0 \<and> task2_inv d w0 s0
    \<and> val s0 Mu = [[0]] \<and> mus s0 = [] \<and> t_obs s0 = t_obs b \<and> u_obs s0 = u_obs b
    \<and> task2_run E d w0 n a = Inr s \<and> for_loop (task2_step E) [0..<n] s0 = Inr s
    \<and> task2_inv d w0 s \<and> unchanged s0 s \<and> optimiser_steps s = n \<and> length (mus s) = n"
proof -
  from assms have lt: "d < w0" by simp
  from observe_ok [OF assms, of E a] obtain b xs ys where
    b: "observe E d w0 a = Inr b" "observed b"
    and o: "t_obs b = view_col xs" "u_obs b = Some (view_col ys)"
      "length xs = 40" "length ys = 40"
    by blast
  from task2_setup_ok [OF lt b(2), of E] obtain s0 where
    s0: "task2_setup E d w0 b = Inr s0" "task2_inv d w0 s0" "optimiser_steps s0 = 0"
      "mus s0 = []" "val s0 Mu = [[0]]" "t_obs s0 = t_obs b" "u_obs s0 = u_obs b"
    by blast
  from task2_loop_ok [OF s0(2), of E "[0..<n]"] obtain s where
    "for_loop (task2_step E) [0..<n] s0 = Inr s" "task2_inv d w0 s" "unchanged s0 s"
    "length (mus s) = length (mus s0) + optimiser_steps s - optimiser_steps s0"
    "optimiser_steps s = optimiser_steps s0 + length [0..<n]"
    by blast
  note l = this
  have "task2_run E d w0 n a = Inr s"
    by (simp add: task2_run_def b s0 l)
  moreover have "optimiser_steps s = n" "length (mus s) = n"
    using l s0 by simp_all
  ultimately show ?thesis
    using b s0 o l by blast
qed

lemma NN_upd_other:
  assumes "l \<notin> set (parameters n)"
  shows "NN n (\<sigma>(l := v)) = NN n \<sigma>"
proof -
  have "forward n (\<sigma>(l := v)) = forward n \<sigma>"
    by (rule forward_cong) (use assms in auto)
  then show ?thesis
    by (simp add: NN_def [abs_def])
qed

lemma forward_single:
  assumes "scalar_output \<sigma>"
  shows "forward n \<sigma> [[t]] = [[NN n \<sigma> t]]"
  using forward_scalar [OF assms, of n "[t]"] by (simp add: view_col_def)

lemma task1_run_Suc:
  assumes "d < w0"
  shows "\<exists>s. task1_run E d w0 (Suc n) a = Inr s \<and> i_var s = Some n
    \<and> optimiser_steps s = Suc n"
proof -
  from task1_run_ok [OF assms, of E a n] obtain s0 s where
    s0: "task1_setup E d w0 a = Inr s0"
    and loop: "for_loop (task1_step E) [0..<n] s0 = Inr s"
    and inv: "task1_inv d w0 s" and c: "optimiser_steps s = n"
    by blast
  have "for_loop (task1_step E) [0..<Suc n] s0 = for_loop (task1_step E) [n] s"
    using for_loop_append [of "task1_step E" "[0..<n]" "[n]" s0] by (simp add: loop)
  then show ?thesis
    by (simp add: task1_run_def s0 task1_step_trained [OF inv] trained_fields c)
qed

lemma task2_run_Suc:
  assumes "\<bar>d\<bar> < w0"
  shows "\<exists>s. task2_run E d w0 (Suc n) a = Inr s \<and> i_var s = Some n
    \<and> optimiser_steps s = Suc n \<and> length (mus s) = Suc n"
proof -
  from task2_run_ok [OF assms, of E a n] obtain b s0 s where
    b: "observe E d w0 a = Inr b"
    and s0: "task2_setup E d w0 b = Inr s0"
    and loop: "for_loop (task2_step E) [0..<n] s0 = Inr s"
    and inv: "task2_inv d w0 s" and c: "optimiser_steps s = n" "length (mus s) = n"
    by blast
  from inv obtain xs ys where
    obs: "t_obs s = view_col xs" "u_obs s = Some (view_col ys)" "length xs = length ys"
    by (auto simp: task2_inv_def observed_def)
  have "for_loop (task2_step E) [0..<Suc n] s0 = for_loop (task2_step E) [n] s"
    using for_loop_append [of "task2_step E" "[0..<n]" "[n]" s0] by (simp add: loop)
  then show ?thesis
    by (simp add: task2_run_def b s0 task2_step_trained [OF inv obs] trained_fields c)
qed


lemma task1_run_zero_i:
  assumes "d < w0"
  shows "map_sum id i_var (task1_run E d w0 0 a) = Inr (i_var a)"
proof -
  from task1_setup_ok [OF assms, of E a] obtain s where
    "task1_setup E d w0 a = Inr s" "i_var s = i_var a"
    by blast
  then show ?thesis
    by (simp add: task1_run_def)
qed

lemma task1_run_Suc_i:
  assumes "d < w0"
  shows "map_sum id i_var (task1_run E d w0 (Suc n) a) = Inr (Some n)"
proof -
  from task1_run_Suc [OF assms, of E n a] obtain s where
    "task1_run E d w0 (Suc n) a = Inr s" "i_var s = Some n"
    by blast
  then show ?thesis
    by simp
qed

subsection \<open>Two runs of Task 1\<close>

lemma agree_poke:
  assumes "agree S \<sigma> \<sigma>'" "l \<in> S"
  shows "agree S (poke \<sigma> l r c x) (poke \<sigma>' l r c x)"
  using assms by (simp add: agree_def poke_def)

lemma depends_onD: "depends_on S u \<Longrightarrow> agree S \<sigma> \<sigma>' \<Longrightarrow> u \<sigma> = u \<sigma>'"
  by (simp add: depends_on_def)

lemma dep_autograd:
  assumes u: "depends_on S u" and v: "depends_on S v" and l: "l \<in> S"
  shows "depends_on S (autograd_grad u l v)"
  unfolding depends_on_def
proof (intro allI impI)
  fix \<sigma> \<sigma>' assume ag: "agree S \<sigma> \<sigma>'"
  have 1: "\<sigma> l = \<sigma>' l"
    using ag l by (simp add: agree_def)
  have 2: "u \<sigma> = u \<sigma>'" "v \<sigma> = v \<sigma>'"
    using depends_onD [OF u ag] depends_onD [OF v ag] by simp_all
  have 3: "u (poke \<sigma> l r c x) = u (poke \<sigma>' l r c x)" for r c x
    by (rule depends_onD [OF u agree_poke [OF ag l]])
  show "autograd_grad u l v \<sigma> = autograd_grad u l v \<sigma>'"
    by (simp add: autograd_grad_def 1 2 3)
qed

lemma dep_u_node:
  assumes "set (parameters n) \<subseteq> S" "l \<in> S"
  shows "depends_on S (u_node n l)"
  unfolding depends_on_def
proof (intro allI impI)
  fix \<sigma> \<sigma>' assume ag: "agree S \<sigma> \<sigma>'"
  have "forward n \<sigma> = forward n \<sigma>'"
    by (rule forward_cong) (use ag assms in \<open>auto simp: agree_def\<close>)
  moreover have "\<sigma> l = \<sigma>' l"
    using ag assms by (simp add: agree_def)
  ultimately show "u_node n l \<sigma> = u_node n l \<sigma>'"
    by (simp add: u_node_def)
qed

lemma dep_ones_like:
  assumes "depends_on S u"
  shows "depends_on S (\<lambda>\<sigma>. ones_like (u \<sigma>))"
  using assms by (simp add: depends_on_def)

lemma dep_dudt_node:
  assumes "set (parameters n) \<subseteq> S" "l \<in> S"
  shows "depends_on S (dudt_node n l)"
  unfolding dudt_node_def
  by (intro dep_autograd dep_ones_like dep_u_node assms)

lemma dep_d2udt2_node:
  assumes "set (parameters n) \<subseteq> S" "l \<in> S"
  shows "depends_on S (d2udt2_node n l)"
  unfolding d2udt2_node_def
  by (intro dep_autograd dep_ones_like dep_dudt_node assms)

lemma dep_task1_loss: "depends_on task1_leaves (task1_loss 2 (Number m) k)"
  unfolding depends_on_def
proof (intro allI impI)
  fix \<sigma> \<sigma>' assume ag: "agree task1_leaves \<sigma> \<sigma>'"
  have sub: "set (parameters 2) \<subseteq> task1_leaves" and
    tb: "TBoundary \<in> task1_leaves" and tp: "TPhysics \<in> task1_leaves"
    by (auto simp: task1_leaves_def)
  note eqs = depends_onD [OF dep_u_node [OF sub tb] ag]
    depends_onD [OF dep_dudt_node [OF sub tb] ag]
    depends_onD [OF dep_u_node [OF sub tp] ag]
    depends_onD [OF dep_dudt_node [OF sub tp] ag]
    depends_onD [OF dep_d2udt2_node [OF sub tp] ag]
  show "task1_loss 2 (Number m) k \<sigma> = task1_loss 2 (Number m) k \<sigma>'"
    by (simp add: task1_loss_def physics_residual_def times_def Let_def eqs)
qed

lemma dep_gradient:
  assumes "depends_on S loss" "l \<in> S"
  shows "depends_on S (gradient loss l)"
proof -
  have "gradient loss l = autograd_grad loss l (\<lambda>\<sigma>. ones_like (loss \<sigma>))"
    by (simp add: gradient_def fun_eq_iff)
  then show ?thesis
    by (simp add: dep_autograd dep_ones_like assms)
qed

lemma same_net_mono: "same_net K a b \<Longrightarrow> K' \<subseteq> K \<Longrightarrow> same_net K' a b"
  by (auto simp: same_net_def)

lemma same_net_new_Linear:
  assumes "same_net K a b"
  shows "same_net (insert wl (insert bl K))
    (new_Linear E i o' wl bl a) (new_Linear E i o' wl bl b)"
  using assms by (simp add: same_net_def new_Linear_def case_prod_beta)

lemma same_net_fold:
  assumes "same_net K a b"
  shows "same_net (K \<union> (\<Union>i\<in>set js. {FchWeight i, FchBias i}))
    (fold (\<lambda>i. new_Linear E h h (FchWeight i) (FchBias i)) js a)
    (fold (\<lambda>i. new_Linear E h h (FchWeight i) (FchBias i)) js b)"
  using assms
proof (induction js arbitrary: K a b)
  case Nil
  then show ?case by simp
next
  case (Cons j js)
  have "same_net (insert (FchWeight j) (insert (FchBias j) K))
      (new_Linear E h h (FchWeight j) (FchBias j) a)
      (new_Linear E h h (FchWeight j) (FchBias j) b)"
    by (rule same_net_new_Linear [OF Cons.prems])
  from Cons.IH [OF this]
  have "same_net (K \<union> (\<Union>i\<in>set (j # js). {FchWeight i, FchBias i}))
      (fold (\<lambda>i. new_Linear E h h (FchWeight i) (FchBias i)) js
        (new_Linear E h h (FchWeight j) (FchBias j) a))
      (fold (\<lambda>i. new_Linear E h h (FchWeight i) (FchBias i)) js
        (new_Linear E h h (FchWeight j) (FchBias j) b))"
    by (rule same_net_mono) auto
  then show ?case by simp
qed

lemma same_net_FCN:
  assumes "rng a = rng b"
  shows "same_net (set (parameters (nl - 1))) (FCN E ni no nh nl a) (FCN E ni no nh nl b)"
proof -
  from assms have 0: "same_net {} a b"
    by (simp add: same_net_def)
  note 1 = same_net_new_Linear [OF 0, where wl = FcsWeight and bl = FcsBias and E = E
      and i = ni and o' = nh]
  note 2 = same_net_fold [OF 1, where E = E and h = nh and js = "[0..<nl - 1]"]
  note 3 = same_net_new_Linear [OF 2, where wl = FceWeight and bl = FceBias and E = E
      and i = nh and o' = no]
  have "same_net (set (parameters (nl - 1)))
      (new_Linear E nh no FceWeight FceBias
        (fold (\<lambda>i. new_Linear E nh nh (FchWeight i) (FchBias i)) [0..<nl - 1]
           (new_Linear E ni nh FcsWeight FcsBias a)))
      (new_Linear E nh no FceWeight FceBias
        (fold (\<lambda>i. new_Linear E nh nh (FchWeight i) (FchBias i)) [0..<nl - 1]
           (new_Linear E ni nh FcsWeight FcsBias b)))"
    by (rule same_net_mono [OF 3]) (auto simp: parameters_def)
  then show ?thesis
    by (simp add: FCN_def same_net_def)
qed

lemma task1_setup_sim:
  assumes "d < w0"
  shows "\<exists>sa sb. task1_setup E d w0 a = Inr sa \<and> task1_setup E d w0 b = Inr sb
    \<and> sim1 d w0 sa sb"
proof -
  define fa where "fa = FCN E 1 1 32 3 (a\<lparr>rng := manual_seed E 123\<rparr>)"
  define fb where "fb = FCN E 1 1 32 3 (b\<lparr>rng := manual_seed E 123\<rparr>)"
  have net: "same_net (set (parameters 2)) fa fb"
    using same_net_FCN [of "a\<lparr>rng := manual_seed E 123\<rparr>" "b\<lparr>rng := manual_seed E 123\<rparr>"
        3 E 1 1 32]
    by (simp add: fa_def fb_def del: One_nat_def)
  from task1_setup_ok [OF assms, of E a] obtain sa where
    sa: "task1_setup E d w0 a = Inr sa" "task1_inv d w0 sa"
    by blast
  from task1_setup_ok [OF assms, of E b] obtain sb where
    sb: "task1_setup E d w0 b = Inr sb" "task1_inv d w0 sb"
    by blast
  from exact_solution_returns [OF assms] obtain ue where
    ue: "exact_solution d w0 (view_col (linspace 0 1 300)) = Inr ue"
    by blast
  have fa': "val sa = (val fa)(TBoundary := view_col [0], TPhysics := view_col (linspace 0 1 30))"
    "grad sa = (grad fa)(TBoundary := None, TPhysics := None)"
    "optimiser_state sa = Adam E (1 / 10 ^ 3)" "optimiser_steps sa = 0"
    using sa(1)
    by (auto simp: task1_setup_def Let_def new_leaf_def ue fa_def [symmetric]
          simp del: One_nat_def)
  have fb': "val sb = (val fb)(TBoundary := view_col [0], TPhysics := view_col (linspace 0 1 30))"
    "grad sb = (grad fb)(TBoundary := None, TPhysics := None)"
    "optimiser_state sb = Adam E (1 / 10 ^ 3)" "optimiser_steps sb = 0"
    using sb(1)
    by (auto simp: task1_setup_def Let_def new_leaf_def ue fb_def [symmetric]
          simp del: One_nat_def)
  have "sim1 d w0 sa sb"
    using net sa(2) sb(2)
    by (auto simp: sim1_def agree_def task1_leaves_def same_net_def fa' fb')
  with sa sb show ?thesis
    by blast
qed

lemma sim1_trained:
  assumes sim: "sim1 d w0 a b"
  shows "sim1 d w0
    (trained E (task1_loss 2 (Number m) k) (parameters 2 @ [TBoundary, TPhysics]) i a)
    (trained E (task1_loss 2 (Number m) k) (parameters 2 @ [TBoundary, TPhysics]) i b)"
proof -
  let ?loss = "task1_loss 2 (Number m) k"
  let ?ls = "parameters 2 @ [TBoundary, TPhysics]"
  from sim have inva: "task1_inv d w0 a" and invb: "task1_inv d w0 b"
    and ag: "agree task1_leaves (val a) (val b)"
    and gr: "\<And>l. l \<in> task1_leaves \<Longrightarrow> grad a l = grad b l"
    and os: "optimiser_state a = optimiser_state b"
    and oc: "optimiser_steps a = optimiser_steps b"
    by (simp_all add: sim1_def)
  from inva invb have pa: "optimiser_params a = parameters 2"
    and pb: "optimiser_params b = parameters 2"
    by (simp_all add: task1_inv_def)
  have vl: "val a l = val b l" if "l \<in> task1_leaves" for l
    using ag that by (simp add: agree_def)
  have g: "gradient ?loss l (val a) = gradient ?loss l (val b)" if "l \<in> task1_leaves" for l
    by (rule depends_onD [OF dep_gradient [OF dep_task1_loss that] ag])
  have sub: "l \<in> set (parameters 2) \<Longrightarrow> l \<in> task1_leaves" for l
    by (simp add: task1_leaves_def)
  have mem: "l \<in> task1_leaves \<longleftrightarrow> l \<in> set ?ls" for l
    by (simp add: task1_leaves_def)
  have grads: "grad (trained E ?loss ?ls i a) l = grad (trained E ?loss ?ls i b) l"
    if "l \<in> task1_leaves" for l
    using that by (simp only: trained_grad pa pb g [OF that] gr [OF that])
  have vals: "val (trained E ?loss ?ls i a) l = val (trained E ?loss ?ls i b) l"
    if l: "l \<in> task1_leaves" for l
  proof (cases "l \<in> set (parameters 2)")
    case True
    then have "l \<in> set (optimiser_params a)" "l \<in> set (optimiser_params b)" "l \<in> set ?ls"
      by (simp_all add: pa pb)
    then show ?thesis
      by (simp add: trained_val_param os vl [OF l] g [OF l])
  next
    case False
    then show ?thesis
      by (simp add: trained_val_other pa pb vl [OF l])
  qed
  have st: "optimiser_state (trained E ?loss ?ls i a) = optimiser_state (trained E ?loss ?ls i b)"
  proof -
    have "map (\<lambda>l. (l, val a l, grad (trained E ?loss ?ls i a) l)) (parameters 2)
        = map (\<lambda>l. (l, val b l, grad (trained E ?loss ?ls i b) l)) (parameters 2)"
      by (rule map_cong [OF refl]) (simp add: vl [OF sub] grads [OF sub])
    then show ?thesis
      by (simp only: trained_state pa pb os)
  qed
  show ?thesis
    unfolding sim1_def agree_def
    using vals grads st oc
    by (simp add: task1_inv_trained [OF inva] task1_inv_trained [OF invb] trained_fields)
qed

lemma for_loop_sim:
  assumes step: "\<And>i a b. R a b \<Longrightarrow> \<exists>a' b'. body i a = Inr a' \<and> body i b = Inr b' \<and> R a' b'"
    and init: "R a b"
  shows "\<exists>a' b'. for_loop body is a = Inr a' \<and> for_loop body is b = Inr b' \<and> R a' b'"
  using init
proof (induction "is" arbitrary: a b)
  case Nil
  then show ?case by simp
next
  case (Cons i "is")
  from step [OF Cons.prems, of i] obtain a1 b1 where
    1: "body i a = Inr a1" "body i b = Inr b1" "R a1 b1"
    by blast
  from Cons.IH [OF 1(3)] 1 show ?case
    by simp
qed

lemma task1_step_sim:
  assumes "sim1 d w0 a b"
  shows "\<exists>a' b'. task1_step E i a = Inr a' \<and> task1_step E i b = Inr b' \<and> sim1 d w0 a' b'"
proof -
  from assms have inva: "task1_inv d w0 a" and invb: "task1_inv d w0 b"
    by (simp_all add: sim1_def)
  show ?thesis
    by (simp add: task1_step_trained [OF inva] task1_step_trained [OF invb]
          sim1_trained [OF assms])
qed

lemma task1_run_sim:
  assumes "d < w0"
  shows "\<exists>sa sb. task1_run E d w0 n a = Inr sa \<and> task1_run E d w0 n b = Inr sb
    \<and> sim1 d w0 sa sb"
proof -
  from task1_setup_sim [OF assms, of E a b] obtain a0 b0 where
    0: "task1_setup E d w0 a = Inr a0" "task1_setup E d w0 b = Inr b0" "sim1 d w0 a0 b0"
    by blast
  from for_loop_sim [of "sim1 d w0" "task1_step E", OF task1_step_sim 0(3), of "[0..<n]"]
  show ?thesis
    by (simp add: task1_run_def 0)
qed

subsection \<open>The update rule of Adam\<close>






section \<open>The claims\<close>

text \<open>
  Claim C1: in Task 1, the loss computed at every iteration \<open>n < 15001\<close> is
  \<open>(NN(0) - 1)\<^sup>2 + \<lambda>\<^sub>1 (NN'(0) - 0)\<^sup>2 + \<lambda>\<^sub>2 mean\<^sub>i (m NN''(t\<^sub>i) + \<mu> NN'(t\<^sub>i) + k NN(t\<^sub>i))\<^sup>2\<close> with
  \<open>\<lambda>\<^sub>1 = 0.1\<close>, \<open>\<lambda>\<^sub>2 = 1e-4\<close>, \<open>m = 1\<close>, \<open>\<mu> = 4\<close>, \<open>k = 400\<close>, where \<open>NN\<close> is the network with
  the parameters that iteration starts from, \<open>NN'\<close> and \<open>NN''\<close> are its first and second
  derivative, and the \<open>t\<^sub>i\<close> are the 30 collocation points. Here \<open>s\<close> is the state after
  \<open>n\<close> iterations, \<open>s'\<close> the state after the next one, and the third conjunct says that the
  run of the whole cell passes through both.
\<close>

theorem task1_loss_every_iteration:
  assumes "n < 15001"
  shows "\<exists>s s'. task1_run E 2 20 n a = Inr s \<and> task1_step E n s = Inr s'
    \<and> task1 E 2 20 a = for_loop (task1_step E) [Suc n..<15001] s'
    \<and> val s TBoundary = [[0]] \<and> val s TPhysics = view_col (linspace 0 1 30)
    \<and> (\<exists>NN' NN''.
         (\<forall>t. forward (pinn s) (val s) [[t]] = [[NN 2 (val s) t]])
         \<and> (\<forall>t. (NN 2 (val s) has_real_derivative NN' t) (at t))
         \<and> (\<forall>t. (NN' has_real_derivative NN'' t) (at t))
         \<and> loss_var s' = Some [[(NN 2 (val s) 0 - 1)\<^sup>2 + 1 / 10 * (NN' 0 - 0)\<^sup>2
             + 1 / 10 ^ 4 * (sum_list (map (\<lambda>t. (1 * NN'' t + 4 * NN' t + 400 * NN 2 (val s) t)\<^sup>2)
                 (linspace 0 1 30)) / 30)]])"
proof -
  have lt: "(2::real) < 20" by simp
  from task1_run_ok [OF lt, of E a n] obtain s0 s where
    s0: "task1_setup E 2 20 a = Inr s0"
    and run: "task1_run E 2 20 n a = Inr s"
    and loop: "for_loop (task1_step E) [0..<n] s0 = Inr s"
    and inv: "task1_inv 2 20 s"
    by blast
  define loss where "loss = task1_loss 2 (Number (2 * 2)) (20\<^sup>2)"
  define s' where "s' = trained E loss (parameters 2 @ [TBoundary, TPhysics]) n s"
  have st: "task1_step E n s = Inr s'"
    unfolding s'_def loss_def by (rule task1_step_trained [OF inv])
  have full: "task1 E 2 20 a = for_loop (task1_step E) [Suc n..<15001] s'"
    by (simp add: task1_def task1_run_def s0 for_loop_split [OF assms] loop st)
  from inv have so: "scalar_output (val s)"
    and tb: "val s TBoundary = view_col [0]"
    and col: "val s TPhysics = view_col (linspace 0 1 30)"
    and p: "pinn s = 2"
    by (simp_all add: task1_inv_def)
  from NN_twice_differentiable [OF so, of 2] obtain f' f'' where
    d1: "\<And>t. (NN 2 (val s) has_real_derivative f' t) (at t)" and
    d2: "\<And>t. (f' has_real_derivative f'' t) (at t)"
    unfolding twice_differentiable_def by blast
  have fw: "\<forall>t. forward (pinn s) (val s) [[t]] = [[NN 2 (val s) t]]"
    by (simp add: p forward_single [OF so])
  have len: "length (linspace 0 1 30) = 30"
    by (simp add: linspace_def)
  have lv: "loss_var s' = Some [[(NN 2 (val s) 0 - 1)\<^sup>2 + 1 / 10 * (f' 0 - 0)\<^sup>2
      + 1 / 10 ^ 4 * (sum_list (map (\<lambda>t. (1 * f'' t + 4 * f' t + 400 * NN 2 (val s) t)\<^sup>2)
          (linspace 0 1 30)) / 30)]]"
    unfolding s'_def loss_def
    by (simp add: trained_fields task1_loss_value [OF so tb col d1 d2] len)
  have tb': "val s TBoundary = [[0]]"
    using tb by (simp add: view_col_def)
  from run st full tb' col fw d1 d2 lv show ?thesis
    by blast
qed

theorem task1_loss_every_iteration_witness:
  "(0::nat) < 15001 \<and> (\<exists>s s'. task1_run sgd_torch 2 20 0 empty_notebook = Inr s
    \<and> task1_step sgd_torch 0 s = Inr s'
    \<and> task1 sgd_torch 2 20 empty_notebook = for_loop (task1_step sgd_torch) [Suc 0..<15001] s'
    \<and> val s TBoundary = [[0]] \<and> val s TPhysics = view_col (linspace 0 1 30)
    \<and> (\<exists>NN' NN''.
         (\<forall>t. forward (pinn s) (val s) [[t]] = [[NN 2 (val s) t]])
         \<and> (\<forall>t. (NN 2 (val s) has_real_derivative NN' t) (at t))
         \<and> (\<forall>t. (NN' has_real_derivative NN'' t) (at t))
         \<and> loss_var s' = Some [[(NN 2 (val s) 0 - 1)\<^sup>2 + 1 / 10 * (NN' 0 - 0)\<^sup>2
             + 1 / 10 ^ 4 * (sum_list (map (\<lambda>t. (1 * NN'' t + 4 * NN' t + 400 * NN 2 (val s) t)\<^sup>2)
                 (linspace 0 1 30)) / 30)]]))"
proof -
  have h: "(0::nat) < 15001" by simp
  show ?thesis
    using h task1_loss_every_iteration [OF h, of sgd_torch empty_notebook] by simp
qed

text \<open>
  Claim C2: in Task 2, the loss computed at every iteration \<open>n < 15001\<close> is
  \<open>physics + \<lambda> data\<close> with \<open>\<lambda> = 1e4\<close>: the physics term is the mean over the 30
  collocation points of \<open>(m NN''(t\<^sub>i) + \<mu> NN'(t\<^sub>i) + k NN(t\<^sub>i))\<^sup>2\<close> with \<open>m = 1\<close>, \<open>k = 400\<close> and
  \<open>\<mu>\<close> the current value of the learnable \<open>mu\<close>, and the data term is the mean over the
  40 observations of \<open>(NN(t\<^sub>j) - u_obs\<^sub>j)\<^sup>2\<close>. No boundary term appears: the loss does not
  change with the value of \<open>t_boundary\<close>.
\<close>

theorem task2_loss_every_iteration:
  assumes "n < 15001"
  shows "\<exists>s s' m xs ys. task2_run E 2 20 n a = Inr s \<and> task2_step E n s = Inr s'
    \<and> task2 E 2 20 a = for_loop (task2_step E) [Suc n..<15001] s'
    \<and> val s Mu = [[m]] \<and> val s TPhysics = view_col (linspace 0 1 30)
    \<and> t_obs s = view_col xs \<and> u_obs s = Some (view_col ys)
    \<and> length xs = 40 \<and> length ys = 40
    \<and> (\<exists>NN' NN''.
         (\<forall>t. forward (pinn s) (val s) [[t]] = [[NN 2 (val s) t]])
         \<and> (\<forall>t. (NN 2 (val s) has_real_derivative NN' t) (at t))
         \<and> (\<forall>t. (NN' has_real_derivative NN'' t) (at t))
         \<and> loss_var s' = Some [[
               sum_list (map (\<lambda>t. (1 * NN'' t + m * NN' t + 400 * NN 2 (val s) t)\<^sup>2)
                 (linspace 0 1 30)) / 30
               + 10 ^ 4 * (sum_list (map2 (\<lambda>x y. (NN 2 (val s) x - y)\<^sup>2) xs ys) / 40)]]
         \<and> (\<forall>v. task2_loss 2 (Parameter Mu) 400 (view_col xs) (view_col ys)
                  ((val s)(TBoundary := v))
               = task2_loss 2 (Parameter Mu) 400 (view_col xs) (view_col ys) (val s)))"
proof -
  have lt: "\<bar>2 :: real\<bar> < 20" by simp
  from task2_run_ok [OF lt, of E a n] obtain b s0 s xs ys where
    b: "observe E 2 20 a = Inr b"
    and o: "t_obs b = view_col xs" "u_obs b = Some (view_col ys)"
      "length xs = 40" "length ys = 40"
    and s0: "task2_setup E 2 20 b = Inr s0" "t_obs s0 = t_obs b" "u_obs s0 = u_obs b"
    and run: "task2_run E 2 20 n a = Inr s"
    and loop: "for_loop (task2_step E) [0..<n] s0 = Inr s"
    and inv: "task2_inv 2 20 s" and un: "unchanged s0 s"
    by blast
  have obs: "t_obs s = view_col xs" "u_obs s = Some (view_col ys)" "length xs = length ys"
    using un o s0 by (simp_all add: unchanged_def)
  define loss where "loss = task2_loss 2 (Parameter Mu) (20\<^sup>2) (view_col xs) (view_col ys)"
  define s1 where "s1 = trained E loss (parameters 2 @ [Mu, TPhysics]) n s"
  define s' where "s' = s1\<lparr>mus := mus s @ [the_mu s1]\<rparr>"
  have st: "task2_step E n s = Inr s'"
    unfolding s'_def s1_def loss_def by (rule task2_step_trained [OF inv obs])
  have full: "task2 E 2 20 a = for_loop (task2_step E) [Suc n..<15001] s'"
    by (simp add: task2_def task2_run_def b s0 for_loop_split [OF assms] loop st)
  from inv obtain m where so: "scalar_output (val s)"
    and mu: "val s Mu = [[m]]"
    and col: "val s TPhysics = view_col (linspace 0 1 30)"
    and p: "pinn s = 2"
    by (auto simp: task2_inv_def)
  from NN_twice_differentiable [OF so, of 2] obtain f' f'' where
    d1: "\<And>t. (NN 2 (val s) has_real_derivative f' t) (at t)" and
    d2: "\<And>t. (f' has_real_derivative f'' t) (at t)"
    unfolding twice_differentiable_def by blast
  have fw: "\<forall>t. forward (pinn s) (val s) [[t]] = [[NN 2 (val s) t]]"
    by (simp add: p forward_single [OF so])
  have len: "length (linspace 0 1 30) = 30"
    by (simp add: linspace_def)
  have lval: "loss (val s) = [[
        sum_list (map (\<lambda>t. (1 * f'' t + m * f' t + 400 * NN 2 (val s) t)\<^sup>2)
          (linspace 0 1 30)) / 30
        + 10 ^ 4 * (sum_list (map2 (\<lambda>x y. (NN 2 (val s) x - y)\<^sup>2) xs ys) / 40)]]"
    unfolding loss_def
    by (simp add: task2_loss_value [OF so col mu obs(3) d1 d2] len o)
  have lv: "loss_var s' = Some [[
        sum_list (map (\<lambda>t. (1 * f'' t + m * f' t + 400 * NN 2 (val s) t)\<^sup>2)
          (linspace 0 1 30)) / 30
        + 10 ^ 4 * (sum_list (map2 (\<lambda>x y. (NN 2 (val s) x - y)\<^sup>2) xs ys) / 40)]]"
    by (simp add: s'_def s1_def trained_fields lval)
  have nb: "\<forall>v. task2_loss 2 (Parameter Mu) 400 (view_col xs) (view_col ys)
        ((val s)(TBoundary := v))
      = task2_loss 2 (Parameter Mu) 400 (view_col xs) (view_col ys) (val s)"
  proof
    fix v
    let ?\<sigma> = "(val s)(TBoundary := v)"
    have nn: "NN 2 ?\<sigma> = NN 2 (val s)"
      by (rule NN_upd_other [OF TBoundary_not_parameter])
    have so': "scalar_output ?\<sigma>"
      using so by (simp add: scalar_output_def)
    have col': "?\<sigma> TPhysics = view_col (linspace 0 1 30)" and mu': "?\<sigma> Mu = [[m]]"
      using col mu by simp_all
    have d1': "\<And>t. (NN 2 ?\<sigma> has_real_derivative f' t) (at t)"
      by (simp add: nn d1)
    show "task2_loss 2 (Parameter Mu) 400 (view_col xs) (view_col ys) ?\<sigma>
      = task2_loss 2 (Parameter Mu) 400 (view_col xs) (view_col ys) (val s)"
      by (simp only: task2_loss_value [OF so' col' mu' obs(3) d1' d2]
            task2_loss_value [OF so col mu obs(3) d1 d2] nn)
  qed
  from run st full mu col obs(1,2) o(3,4) fw d1 d2 lv nb show ?thesis
    by blast
qed

theorem task2_loss_every_iteration_witness:
  "(0::nat) < 15001 \<and> (\<exists>s s' m xs ys. task2_run sgd_torch 2 20 0 empty_notebook = Inr s
    \<and> task2_step sgd_torch 0 s = Inr s'
    \<and> task2 sgd_torch 2 20 empty_notebook = for_loop (task2_step sgd_torch) [Suc 0..<15001] s'
    \<and> val s Mu = [[m]] \<and> val s TPhysics = view_col (linspace 0 1 30)
    \<and> t_obs s = view_col xs \<and> u_obs s = Some (view_col ys)
    \<and> length xs = 40 \<and> length ys = 40
    \<and> (\<exists>NN' NN''.
         (\<forall>t. forward (pinn s) (val s) [[t]] = [[NN 2 (val s) t]])
         \<and> (\<forall>t. (NN 2 (val s) has_real_derivative NN' t) (at t))
         \<and> (\<forall>t. (NN' has_real_derivative NN'' t) (at t))
         \<and> loss_var s' = Some [[
               sum_list (map (\<lambda>t. (1 * NN'' t + m * NN' t + 400 * NN 2 (val s) t)\<^sup>2)
                 (linspace 0 1 30)) / 30
               + 10 ^ 4 * (sum_list (map2 (\<lambda>x y. (NN 2 (val s) x - y)\<^sup>2) xs ys) / 40)]]
         \<and> (\<forall>v. task2_loss 2 (Parameter Mu) 400 (view_col xs) (view_col ys)
                  ((val s)(TBoundary := v))
               = task2_loss 2 (Parameter Mu) 400 (view_col xs) (view_col ys) (val s))))"
proof -
  have h: "(0::nat) < 15001" by simp
  show ?thesis
    using h task2_loss_every_iteration [OF h, of sgd_torch empty_notebook] by simp
qed

text \<open>
  Claim C4: for every \<open>d \<ge> w0\<close>, \<open>exact_solution\<close> raises its assertion error for every
  input tensor, and returns no value. Each of the three cells that call it does so before
  its loop: the cell raises, and no iteration of a training loop is run.
\<close>

theorem exact_solution_precondition:
  assumes "w0 \<le> d"
  shows "exact_solution d w0 t = Inl AssertionError
    \<and> task1_setup E d w0 a = Inl (Raised AssertionError)
    \<and> task1_run E d w0 n a = Inl (Raised AssertionError)
    \<and> task1 E d w0 a = Inl (Raised AssertionError)
    \<and> observe E d w0 a = Inl (Raised AssertionError)
    \<and> task2_setup E d w0 a = Inl (Raised AssertionError)
    \<and> task2_run E d w0 n a = Inl (Raised AssertionError)
    \<and> task2 E d w0 a = Inl (Raised AssertionError)"
proof -
  from assms have n: "\<not> d < w0" by simp
  show ?thesis
    by (simp add: exact_solution_raises [OF n] task1_setup_raises [OF n]
          observe_raises [OF n] task2_setup_raises [OF n] task1_run_def task1_def
          task2_run_def task2_def)
qed

theorem exact_solution_precondition_witness:
  "(20::real) \<le> 20 \<and> exact_solution 20 20 [[0]] = Inl AssertionError
    \<and> task1_setup sgd_torch 20 20 empty_notebook = Inl (Raised AssertionError)
    \<and> task1_run sgd_torch 20 20 1 empty_notebook = Inl (Raised AssertionError)
    \<and> task1 sgd_torch 20 20 empty_notebook = Inl (Raised AssertionError)
    \<and> observe sgd_torch 20 20 empty_notebook = Inl (Raised AssertionError)
    \<and> task2_setup sgd_torch 20 20 empty_notebook = Inl (Raised AssertionError)
    \<and> task2_run sgd_torch 20 20 1 empty_notebook = Inl (Raised AssertionError)
    \<and> task2 sgd_torch 20 20 empty_notebook = Inl (Raised AssertionError)"
proof -
  have h: "(20::real) \<le> 20" by simp
  show ?thesis
    using h exact_solution_precondition [OF h, of "[[0]]" sgd_torch empty_notebook 1] by simp
qed


text \<open>
  Claim C6: in both tasks, for every library record and from every state, the loop ends
  after exactly 15001 calls of \<open>optimiser.step()\<close>, the last with \<open>i = 15000\<close>: nothing
  exits it earlier. In Task 2, \<open>mus\<close> then has 15001 entries.
\<close>

theorem loops_make_15001_steps:
  "(\<exists>s. task1 E 2 20 a = Inr s \<and> optimiser_steps s = 15001 \<and> i_var s = Some 15000)
   \<and> (\<exists>s. task2 E 2 20 a = Inr s \<and> optimiser_steps s = 15001 \<and> i_var s = Some 15000
        \<and> length (mus s) = 15001)"
proof -
  have lt: "(2::real) < 20" and lt': "\<bar>2 :: real\<bar> < 20" by simp_all
  have n: "(15001::nat) = Suc 15000" by simp
  from task1_run_Suc [OF lt, of E 15000 a] obtain s1 where
    "task1_run E 2 20 15001 a = Inr s1" "i_var s1 = Some 15000" "optimiser_steps s1 = 15001"
    by (auto simp: n [symmetric])
  moreover from task2_run_Suc [OF lt', of E 15000 a] obtain s2 where
    "task2_run E 2 20 15001 a = Inr s2" "i_var s2 = Some 15000" "optimiser_steps s2 = 15001"
    "length (mus s2) = 15001"
    by (auto simp: n [symmetric])
  ultimately show ?thesis
    unfolding task1_def task2_def by blast
qed

text \<open>
  Claim C7: two runs of the Task 1 cell, from any two states of the notebook (whatever the
  state of the random generator before the cell), agree step for step: after every
  iteration the parameters of the network, their gradients, the loss and the optimiser's
  state are the same, and so are the final parameters. The cell seeds the generator
  itself and reads nothing of the state it starts from.
\<close>

theorem task1_deterministic:
  "(\<exists>s s'. task1_run E 2 20 (Suc n) a = Inr s \<and> task1_run E 2 20 (Suc n) b = Inr s'
      \<and> map (val s) (parameters 2) = map (val s') (parameters 2)
      \<and> map (grad s) (parameters 2) = map (grad s') (parameters 2)
      \<and> loss_var s = loss_var s' \<and> optimiser_state s = optimiser_state s')
   \<and> (\<exists>s s'. task1 E 2 20 a = Inr s \<and> task1 E 2 20 b = Inr s'
      \<and> pinn s = 2 \<and> pinn s' = 2
      \<and> map (val s) (parameters 2) = map (val s') (parameters 2))"
proof -
  have lt: "(2::real) < 20" by simp
  have one: "\<exists>s s'. task1_run E 2 20 (Suc n) a = Inr s \<and> task1_run E 2 20 (Suc n) b = Inr s'
      \<and> map (val s) (parameters 2) = map (val s') (parameters 2)
      \<and> map (grad s) (parameters 2) = map (grad s') (parameters 2)
      \<and> loss_var s = loss_var s' \<and> optimiser_state s = optimiser_state s'
      \<and> pinn s = 2 \<and> pinn s' = 2" for n
  proof -
    from task1_run_ok [OF lt, of E a n] obtain a0 sa where
      a: "task1_setup E 2 20 a = Inr a0" "for_loop (task1_step E) [0..<n] a0 = Inr sa"
      "task1_run E 2 20 n a = Inr sa"
      by blast
    from task1_run_ok [OF lt, of E b n] obtain b0 sb where
      b: "task1_setup E 2 20 b = Inr b0" "for_loop (task1_step E) [0..<n] b0 = Inr sb"
      "task1_run E 2 20 n b = Inr sb"
      by blast
    from task1_run_sim [OF lt, of E n a b] a(3) b(3) have sim: "sim1 2 20 sa sb"
      by simp
    then have inva: "task1_inv 2 20 sa" and invb: "task1_inv 2 20 sb"
      and ag: "agree task1_leaves (val sa) (val sb)"
      by (simp_all add: sim1_def)
    define loss where "loss = task1_loss 2 (Number (2 * 2)) (20\<^sup>2)"
    define sa' where "sa' = trained E loss (parameters 2 @ [TBoundary, TPhysics]) n sa"
    define sb' where "sb' = trained E loss (parameters 2 @ [TBoundary, TPhysics]) n sb"
    have sim': "sim1 2 20 sa' sb'"
      unfolding sa'_def sb'_def loss_def by (rule sim1_trained [OF sim])
    have ra: "task1_run E 2 20 (Suc n) a = Inr sa'"
      using for_loop_append [of "task1_step E" "[0..<n]" "[n]" a0]
      by (simp add: task1_run_def a task1_step_trained [OF inva] sa'_def loss_def)
    have rb: "task1_run E 2 20 (Suc n) b = Inr sb'"
      using for_loop_append [of "task1_step E" "[0..<n]" "[n]" b0]
      by (simp add: task1_run_def b task1_step_trained [OF invb] sb'_def loss_def)
    have lv: "loss_var sa' = loss_var sb'"
      unfolding sa'_def sb'_def loss_def
      by (simp add: trained_fields depends_onD [OF dep_task1_loss ag])
    have sub: "l \<in> set (parameters 2) \<Longrightarrow> l \<in> task1_leaves" for l
      by (simp add: task1_leaves_def)
    have v: "map (val sa') (parameters 2) = map (val sb') (parameters 2)"
      by (rule map_cong [OF refl]) (use sim' sub in \<open>auto simp: sim1_def agree_def\<close>)
    have g: "map (grad sa') (parameters 2) = map (grad sb') (parameters 2)"
      by (rule map_cong [OF refl]) (use sim' sub in \<open>auto simp: sim1_def\<close>)
    from sim' have "optimiser_state sa' = optimiser_state sb'" "pinn sa' = 2" "pinn sb' = 2"
      by (simp_all add: sim1_def task1_inv_def)
    with ra rb v g lv show ?thesis
      by blast
  qed
  have n: "(15001::nat) = Suc 15000" by simp
  from one [of n] one [of 15000] show ?thesis
    unfolding task1_def n by blast
qed

text \<open>
  Claim C8, as the code has it: in both tasks the values of \<open>t_boundary\<close> and \<open>t_physics\<close>
  and, in Task 2, the observations \<open>t_obs\<close> and \<open>u_obs\<close> made by the cell before, are the
  same before the loop (\<open>s0\<close>), after every number \<open>n\<close> of iterations (\<open>s\<close>) and after the
  next one (\<open>s'\<close>). An iteration changes the values of the optimiser's parameters (the
  network's, and \<open>mu\<close> in Task 2), the history \<open>mus\<close> in Task 2, and the loop's own
  bookkeeping: the iteration variable, the loss, the gradient buffers and the
  optimiser's state. The value of every other leaf and every other variable stays
  (\<open>unchanged\<close>).
\<close>

theorem inputs_unchanged_by_training:
  "(\<exists>s0 s s'. task1_run E 2 20 0 a = Inr s0 \<and> task1_run E 2 20 n a = Inr s
       \<and> task1_step E n s = Inr s'
       \<and> val s0 TBoundary = [[0]] \<and> val s0 TPhysics = view_col (linspace 0 1 30)
       \<and> unchanged s0 s \<and> unchanged s s' \<and> val s' Mu = val s Mu \<and> mus s' = mus s
       \<and> (\<forall>l. l \<in> set (optimiser_params s) \<or> val s' l = val s l))
   \<and> (\<exists>b s0 s s'. observe E 2 20 a = Inr b \<and> task2_run E 2 20 0 a = Inr s0
       \<and> task2_run E 2 20 n a = Inr s \<and> task2_step E n s = Inr s'
       \<and> t_obs s0 = t_obs b \<and> u_obs s0 = u_obs b
       \<and> val s0 TPhysics = view_col (linspace 0 1 30)
       \<and> unchanged s0 s \<and> unchanged s s'
       \<and> (\<forall>l. l \<in> set (optimiser_params s) \<or> val s' l = val s l))"
proof (intro conjI)
  have lt: "(2::real) < 20" by simp
  from task1_run_ok [OF lt, of E a n] obtain s0 s where
    s0: "task1_setup E 2 20 a = Inr s0" "task1_inv 2 20 s0"
    and run: "task1_run E 2 20 n a = Inr s"
    and inv: "task1_inv 2 20 s" and un: "unchanged s0 s"
    by blast
  have r0: "task1_run E 2 20 0 a = Inr s0"
    by (simp add: task1_run_def s0)
  from task1_step_unchanged [OF inv, of E n] obtain s' where
    "task1_step E n s = Inr s'" "unchanged s s'" "val s' Mu = val s Mu" "mus s' = mus s"
    "\<forall>l. l \<in> set (optimiser_params s) \<or> val s' l = val s l"
    by blast
  moreover from s0(2) have "val s0 TBoundary = [[0]]"
    "val s0 TPhysics = view_col (linspace 0 1 30)"
    by (simp_all add: task1_inv_def view_col_def)
  ultimately show "\<exists>s0 s s'. task1_run E 2 20 0 a = Inr s0 \<and> task1_run E 2 20 n a = Inr s
       \<and> task1_step E n s = Inr s'
       \<and> val s0 TBoundary = [[0]] \<and> val s0 TPhysics = view_col (linspace 0 1 30)
       \<and> unchanged s0 s \<and> unchanged s s' \<and> val s' Mu = val s Mu \<and> mus s' = mus s
       \<and> (\<forall>l. l \<in> set (optimiser_params s) \<or> val s' l = val s l)"
    using r0 run un by blast
next
  have lt: "\<bar>2 :: real\<bar> < 20" by simp
  from task2_run_ok [OF lt, of E a n] obtain b s0 s where
    b: "observe E 2 20 a = Inr b"
    and s0: "task2_setup E 2 20 b = Inr s0" "task2_inv 2 20 s0"
      "t_obs s0 = t_obs b" "u_obs s0 = u_obs b"
    and run: "task2_run E 2 20 n a = Inr s"
    and inv: "task2_inv 2 20 s" and un: "unchanged s0 s"
    by blast
  have r0: "task2_run E 2 20 0 a = Inr s0"
    by (simp add: task2_run_def b s0)
  from task2_step_unchanged [OF inv, of E n] obtain s' where
    "task2_step E n s = Inr s'" "unchanged s s'"
    "\<forall>l. l \<in> set (optimiser_params s) \<or> val s' l = val s l"
    by blast
  moreover from s0(2) have "val s0 TPhysics = view_col (linspace 0 1 30)"
    by (simp add: task2_inv_def)
  ultimately show "\<exists>b s0 s s'. observe E 2 20 a = Inr b \<and> task2_run E 2 20 0 a = Inr s0
       \<and> task2_run E 2 20 n a = Inr s \<and> task2_step E n s = Inr s'
       \<and> t_obs s0 = t_obs b \<and> u_obs s0 = u_obs b
       \<and> val s0 TPhysics = view_col (linspace 0 1 30)
       \<and> unchanged s0 s \<and> unchanged s s'
       \<and> (\<forall>l. l \<in> set (optimiser_params s) \<or> val s' l = val s l)"
    using b r0 run un s0 by blast
qed

text \<open>
  Claim C8 as stated says that the parameters (and \<open>mu\<close> and its history) are the only
  state an iteration changes. The iteration variable \<open>i\<close> is state of the loop too: it is
  unbound in a new kernel before the loop, 0 after the first iteration and 1 after the
  second.
\<close>

theorem iteration_variable_changes:
  "map_sum id i_var (task1_run sgd_torch 2 20 0 empty_notebook) = Inr None
   \<and> map_sum id i_var (task1_run sgd_torch 2 20 1 empty_notebook) = Inr (Some 0)
   \<and> map_sum id i_var (task1_run sgd_torch 2 20 2 empty_notebook) = Inr (Some 1)"
proof -
  have lt: "(2::real) < 20" by simp
  have "i_var empty_notebook = None"
    by (simp add: empty_notebook_def)
  with task1_run_zero_i [OF lt, of sgd_torch empty_notebook]
    task1_run_Suc_i [OF lt, of sgd_torch 0 empty_notebook]
    task1_run_Suc_i [OF lt, of sgd_torch 1 empty_notebook]
  show ?thesis
    by (simp add: numeral_2_eq_2)
qed

text \<open>
  Claim C10: for every setting of the parameters of a network with one output feature and
  every batch \<open>ts\<close> of collocation points arranged as an \<open>(N, 1)\<close> tensor, one reverse
  pass seeded with ones gives the vector of the derivatives \<open>NN'(t\<^sub>i)\<close>, a second one the
  vector of the second derivatives \<open>NN''(t\<^sub>i)\<close>, and the batched physics residual is the
  pointwise residual \<open>m NN''(t\<^sub>i) + \<mu> NN'(t\<^sub>i) + k NN(t\<^sub>i)\<close> with \<open>m = 1\<close>, for \<open>mu\<close> a number
  (Task 1) and for \<open>mu\<close> a one-element parameter (Task 2).
\<close>

theorem batched_derivatives_are_pointwise:
  assumes "scalar_output \<sigma>" and "\<sigma> TPhysics = view_col ts"
  shows "\<exists>NN' NN''.
    (\<forall>t. forward n \<sigma> [[t]] = [[NN n \<sigma> t]])
    \<and> (\<forall>t. (NN n \<sigma> has_real_derivative NN' t) (at t))
    \<and> (\<forall>t. (NN' has_real_derivative NN'' t) (at t))
    \<and> u_node n TPhysics \<sigma> = view_col (map (NN n \<sigma>) ts)
    \<and> dudt_node n TPhysics \<sigma> = view_col (map NN' ts)
    \<and> d2udt2_node n TPhysics \<sigma> = view_col (map NN'' ts)
    \<and> physics_residual n (Number mu) k \<sigma>
        = view_col (map (\<lambda>t. 1 * NN'' t + mu * NN' t + k * NN n \<sigma> t) ts)
    \<and> physics_residual n (Parameter Mu) k (\<sigma>(Mu := [[mu]]))
        = view_col (map (\<lambda>t. 1 * NN'' t + mu * NN' t + k * NN n \<sigma> t) ts)"
proof -
  from NN_twice_differentiable [OF assms(1), of n] obtain f' f'' where
    d1: "\<And>t. (NN n \<sigma> has_real_derivative f' t) (at t)" and
    d2: "\<And>t. (f' has_real_derivative f'' t) (at t)"
    unfolding twice_differentiable_def by blast
  have so': "scalar_output (\<sigma>(Mu := [[mu]]))"
    using assms(1) by (simp add: scalar_output_Mu)
  have col': "(\<sigma>(Mu := [[mu]])) TPhysics = view_col ts"
    using assms(2) by simp
  have nn: "NN n (\<sigma>(Mu := [[mu]])) = NN n \<sigma>"
    by (rule NN_upd_other [OF Mu_not_parameter])
  have d1': "\<And>t. (NN n (\<sigma>(Mu := [[mu]])) has_real_derivative f' t) (at t)"
    by (simp add: nn d1)
  have mu: "(\<sigma>(Mu := [[mu]])) Mu = [[mu]]"
    by simp
  have "\<forall>t. forward n \<sigma> [[t]] = [[NN n \<sigma> t]]"
    by (simp add: forward_single [OF assms(1)])
  moreover have "u_node n TPhysics \<sigma> = view_col (map (NN n \<sigma>) ts)"
    by (rule u_node_col [OF assms])
  moreover have "dudt_node n TPhysics \<sigma> = view_col (map f' ts)"
    by (rule dudt_node_col [OF assms TPhysics_not_parameter d1])
  moreover have "d2udt2_node n TPhysics \<sigma> = view_col (map f'' ts)"
    by (rule d2udt2_node_col [OF assms TPhysics_not_parameter d1 d2])
  moreover have "physics_residual n (Number mu) k \<sigma>
        = view_col (map (\<lambda>t. 1 * f'' t + mu * f' t + k * NN n \<sigma> t) ts)"
    by (rule physics_residual_Number [OF assms d1 d2])
  moreover have "physics_residual n (Parameter Mu) k (\<sigma>(Mu := [[mu]]))
        = view_col (map (\<lambda>t. 1 * f'' t + mu * f' t + k * NN n \<sigma> t) ts)"
    using physics_residual_Parameter [OF so' col' mu d1' d2, of k] by (simp add: nn)
  ultimately show ?thesis
    using d1 d2 by blast
qed

theorem batched_derivatives_are_pointwise_witness:
  "scalar_output small_store \<and> small_store TPhysics = view_col [0, 1 / 2, 1]
   \<and> (\<exists>NN' NN''.
    (\<forall>t. forward 2 small_store [[t]] = [[NN 2 small_store t]])
    \<and> (\<forall>t. (NN 2 small_store has_real_derivative NN' t) (at t))
    \<and> (\<forall>t. (NN' has_real_derivative NN'' t) (at t))
    \<and> u_node 2 TPhysics small_store = view_col (map (NN 2 small_store) [0, 1 / 2, 1])
    \<and> dudt_node 2 TPhysics small_store = view_col (map NN' [0, 1 / 2, 1])
    \<and> d2udt2_node 2 TPhysics small_store = view_col (map NN'' [0, 1 / 2, 1])
    \<and> physics_residual 2 (Number 4) 400 small_store
        = view_col (map (\<lambda>t. 1 * NN'' t + 4 * NN' t + 400 * NN 2 small_store t) [0, 1 / 2, 1])
    \<and> physics_residual 2 (Parameter Mu) 400 (small_store(Mu := [[4]]))
        = view_col (map (\<lambda>t. 1 * NN'' t + 4 * NN' t + 400 * NN 2 small_store t) [0, 1 / 2, 1]))"
proof -
  have h1: "scalar_output small_store"
    by (simp add: small_store_def scalar_output_def numel_def)
  have h2: "small_store TPhysics = view_col [0, 1 / 2, 1]"
    by (simp add: small_store_def)
  show ?thesis
    using h1 h2 batched_derivatives_are_pointwise [OF h1 h2, of 2 4 400] by simp
qed

end
